theory Spec2Isabelle
  imports Complex_Main "HOL-Library.AList"
begin

section \<open>Conventions of the embedding\<close>

text \<open>
  Python floats are modelled as \<^typ>\<open>real\<close>: rounding error and NaN are outside the
  model, so the branches of the source that only test for NaN (\<open>pd.isna\<close>,
  \<open>np.isnan\<close>) have no counterpart. The one NaN the model keeps is the \<open>0 / 0\<close> of
  \<open>pricing/price-logic.py\<close>, as the value \<open>None\<close>. Python's unbounded \<open>int\<close> is \<^typ>\<open>int\<close>.
  A \<open>dict\<close> is an association list in insertion order (\<open>map_of\<close> reads it,
  \<open>AList.update\<close> writes it: an existing key keeps its place, a new key goes last),
  because the source iterates over \<open>.items()\<close>. Values the environment supplies
  (\<open>uuid4()\<close>, \<open>datetime.now()\<close>, the outcome of a database write, random draws)
  are explicit arguments. Exceptions are values of type \<open>error\<close>.
\<close>

datatype error =
    KeyError
  | IndexError
  | ZeroDivisionError
  | ValueError
  | NoOptionPrices
  | NoMarketData
  | StrikeNotAvailable real
  | DatabaseError

text \<open>\<open>int(x)\<close> on a float: truncation toward zero.\<close>

definition py_int :: "real \<Rightarrow> int" where
  "py_int x = (if 0 \<le> x then \<lfloor>x\<rfloor> else \<lceil>x\<rceil>)"

text \<open>\<open>round(x, n)\<close>: to \<open>n\<close> decimals, ties to the even neighbour.\<close>

definition round_half_even :: "real \<Rightarrow> int" where
  "round_half_even y =
     (let f = \<lfloor>y\<rfloor>; d = y - of_int f
      in if d < 1 / 2 then f
         else if 1 / 2 < d then f + 1
         else if even f then f else f + 1)"

definition py_round :: "real \<Rightarrow> nat \<Rightarrow> real" where
  "py_round x n = of_int (round_half_even (x * 10 ^ n)) / 10 ^ n"

section \<open>portfolio-classes.py: trades and positions\<close>

datatype TradeType = BUY | SELL

datatype PositionStatus = OPEN | CLOSED | SETTLED

record Trade =
  trade_id :: string
  user_id :: string
  timestamp :: nat
  trade_type :: TradeType
  strike_price :: real
  quantity :: int
  price_per_contract :: real
  total_cost :: real
  market_price_at_trade :: real

record Position =
  pos_user_id :: string
  pos_strike_price :: real
  pos_quantity :: int
  total_cost_basis :: real
  trades :: "Trade list"
  status :: PositionStatus
  settlement_value :: real

text \<open>\<open>Position.__init__\<close>.\<close>

definition Position_init :: "string \<Rightarrow> real \<Rightarrow> Position" where
  "Position_init uid k =
     \<lparr>pos_user_id = uid, pos_strike_price = k, pos_quantity = 0, total_cost_basis = 0,
      trades = [], status = OPEN, settlement_value = 0\<rparr>"

text \<open>\<open>Position.add_trade\<close>: append, then add (BUY) or subtract (SELL) the trade's
  quantity and its \<open>total_cost\<close> field.\<close>

definition add_trade :: "Position \<Rightarrow> Trade \<Rightarrow> Position" where
  "add_trade p t =
     (if trade_type t = BUY
      then p\<lparr>trades := trades p @ [t],
             pos_quantity := pos_quantity p + quantity t,
             total_cost_basis := total_cost_basis p + total_cost t\<rparr>
      else p\<lparr>trades := trades p @ [t],
             pos_quantity := pos_quantity p - quantity t,
             total_cost_basis := total_cost_basis p - total_cost t\<rparr>)"

definition get_average_cost_per_contract :: "Position \<Rightarrow> real" where
  "get_average_cost_per_contract p =
     (if pos_quantity p = 0 then 0
      else total_cost_basis p / of_int \<bar>pos_quantity p\<bar>)"

definition calculate_unrealized_pnl :: "Position \<Rightarrow> real \<Rightarrow> real" where
  "calculate_unrealized_pnl p current_option_price =
     (if status p \<noteq> OPEN then 0
      else of_int (pos_quantity p) * current_option_price - total_cost_basis p)"

text \<open>\<open>Position.settle_position\<close>: the returned value and the position afterwards.\<close>

definition settle_position :: "Position \<Rightarrow> real \<Rightarrow> real \<Rightarrow> real \<times> Position" where
  "settle_position p final_market_price k =
     (if status p \<noteq> OPEN then (settlement_value p, p)
      else
        (let option_payoff = max (final_market_price / 100 - k) 0;
             sv = of_int (pos_quantity p) * option_payoff
         in (sv, p\<lparr>settlement_value := sv, status := SETTLED\<rparr>)))"

text \<open>The two folds of a trade list that the rollback branch of \<open>execute_trade\<close>
  writes out: signed quantities, and the \<open>total_cost\<close> fields as stored.\<close>

definition signed_quantity :: "Trade \<Rightarrow> int" where
  "signed_quantity t = (if trade_type t = BUY then quantity t else - quantity t)"

definition sum_signed_quantity :: "Trade list \<Rightarrow> int" where
  "sum_signed_quantity ts = sum_list (map signed_quantity ts)"

definition sum_total_cost :: "Trade list \<Rightarrow> real" where
  "sum_total_cost ts = sum_list (map total_cost ts)"

section \<open>portfolio-classes.py: the pricing transform\<close>

record PricedRow =
  yes_price :: real
  no_price :: real
  t_index :: nat
  decay_multiplier :: real
  option_bid :: real
  option_ask :: real

text \<open>The \<open>decay_multiplier\<close> column of \<open>PortfolioManager.compute_option_prices_from_df\<close>
  at row \<open>t\<close>, where \<open>T = len(df) - 1\<close>.\<close>

definition decay_at :: "real \<Rightarrow> int \<Rightarrow> nat \<Rightarrow> real" where
  "decay_at decay_rate T t =
     (if T = 0 then 1 else exp (- decay_rate * (of_nat t / of_int T)))"

definition price_row :: "real \<Rightarrow> real \<Rightarrow> int \<Rightarrow> nat \<times> real \<times> real \<Rightarrow> PricedRow" where
  "price_row k decay_rate T r =
     (case r of (t, y, n) \<Rightarrow>
        \<lparr>yes_price = y, no_price = n, t_index = t,
         decay_multiplier = decay_at decay_rate T t,
         option_bid = y * (1 - k) * decay_at decay_rate T t,
         option_ask = (1 - n) * (1 - k) * decay_at decay_rate T t\<rparr>)"

definition compute_option_prices_from_df ::
  "(real \<times> real) list \<Rightarrow> real \<Rightarrow> real \<Rightarrow> PricedRow list" where
  "compute_option_prices_from_df df k decay_rate =
     map (price_row k decay_rate (int (length df) - 1)) (enumerate 0 df)"

text \<open>The standalone \<open>compute_option_prices_from_df\<close> of \<open>pricing/price-logic.py\<close>
  is the same function without the guard. \<open>T = 0\<close> happens for a frame of one row,
  whose only index is 0: there numpy's \<open>t_index / T\<close> is \<open>0 / 0\<close>, a NaN (with a
  warning, no exception), and the column is NaN. In these definitions \<open>None\<close> is that
  NaN; a product with NaN is NaN.\<close>

definition decay_at_price_logic :: "real \<Rightarrow> int \<Rightarrow> nat \<Rightarrow> real option" where
  "decay_at_price_logic decay_rate T t =
     (if T = 0 then None else Some (exp (- decay_rate * (of_nat t / of_int T))))"

text \<open>A row of the frame \<open>price-logic.py\<close> returns.\<close>

record PriceLogicRow =
  pl_yes_price :: real
  pl_no_price :: real
  pl_t_index :: nat
  pl_decay_multiplier :: "real option"
  pl_option_bid :: "real option"
  pl_option_ask :: "real option"

definition price_logic_row :: "real \<Rightarrow> real \<Rightarrow> int \<Rightarrow> nat \<times> real \<times> real \<Rightarrow> PriceLogicRow" where
  "price_logic_row k decay_rate T r =
     (case r of (t, y, n) \<Rightarrow>
        \<lparr>pl_yes_price = y, pl_no_price = n, pl_t_index = t,
         pl_decay_multiplier = decay_at_price_logic decay_rate T t,
         pl_option_bid = map_option (\<lambda>m. y * (1 - k) * m) (decay_at_price_logic decay_rate T t),
         pl_option_ask =
           map_option (\<lambda>m. (1 - n) * (1 - k) * m) (decay_at_price_logic decay_rate T t)\<rparr>)"

definition compute_option_prices_from_df_price_logic ::
  "(real \<times> real) list \<Rightarrow> real \<Rightarrow> real \<Rightarrow> PriceLogicRow list" where
  "compute_option_prices_from_df_price_logic df k decay_rate =
     map (price_logic_row k decay_rate (int (length df) - 1)) (enumerate 0 df)"

section \<open>portfolio-classes.py: the ledger\<close>

record User =
  username :: string
  starting_cash :: real
  current_cash :: real
  total_realized_pnl :: real

text \<open>One row of the \<open>current_option_prices\<close> frame.\<close>

record OptionQuote =
  strike :: real
  bid :: real
  ask :: real
  mid :: real

text \<open>The column a caller of \<open>get_option_price\<close> asks for (\<open>side\<close>).\<close>

datatype PriceSide = Bid | Ask | Mid

text \<open>The in-memory state of \<open>PortfolioManager\<close>. Of the market frame only its
  \<open>price\<close> column is ever read, so \<open>current_market_data\<close> is that column.\<close>

record PortfolioManager =
  users :: "(string \<times> User) list"
  positions :: "(string \<times> (real \<times> Position) list) list"
  current_market_data :: "real list option"
  current_option_prices :: "OptionQuote list option"
  market_resolved :: bool
  final_market_price :: "real option"

definition strikes :: "real list" where
  "strikes = [3 / 10, 4 / 10, 5 / 10, 6 / 10, 7 / 10, 8 / 10]"

text \<open>The body of the \<open>for strike in strikes\<close> loop of \<open>update_market_data\<close>: the
  single-row pricing frame is priced with the default \<open>decay_rate = 1.5\<close> and row 0 is
  read back. An empty result would raise at \<open>.iloc[0]\<close>.\<close>

definition quote_for_strike :: "real \<Rightarrow> real \<Rightarrow> real \<Rightarrow> error + OptionQuote" where
  "quote_for_strike yes_prob no_prob k =
     (case compute_option_prices_from_df [(yes_prob, no_prob)] k (3 / 2) of
        [] \<Rightarrow> Inl IndexError
      | r # _ \<Rightarrow>
          Inr \<lparr>strike = k, bid = option_bid r, ask = option_ask r,
               mid = (option_bid r + option_ask r) / 2\<rparr>)"

fun quotes_for_strikes :: "real \<Rightarrow> real \<Rightarrow> real list \<Rightarrow> error + OptionQuote list" where
  "quotes_for_strikes yes_prob no_prob [] = Inr []"
| "quotes_for_strikes yes_prob no_prob (k # ks) =
     (case quote_for_strike yes_prob no_prob k of
        Inl e \<Rightarrow> Inl e
      | Inr q \<Rightarrow>
          (case quotes_for_strikes yes_prob no_prob ks of
             Inl e \<Rightarrow> Inl e
           | Inr qs \<Rightarrow> Inr (q # qs)))"

text \<open>\<open>update_market_data\<close>: the market frame is stored first; \<open>.iloc[-1]\<close> on an
  empty frame then raises with the old quotes still in place.\<close>

definition update_market_data ::
  "PortfolioManager \<Rightarrow> real list \<Rightarrow> error option \<times> PortfolioManager" where
  "update_market_data pm market_df =
     (let pm1 = pm\<lparr>current_market_data := Some market_df\<rparr>
      in if market_df = [] then (Some IndexError, pm1)
         else
           (let latest_price = last market_df;
                yes_prob = latest_price / 100;
                no_prob = 1 - yes_prob
            in case quotes_for_strikes yes_prob no_prob strikes of
                 Inl e \<Rightarrow> (Some e, pm1)
               | Inr option_data \<Rightarrow> (None, pm1\<lparr>current_option_prices := Some option_data\<rparr>)))"

definition quote_side :: "PriceSide \<Rightarrow> OptionQuote \<Rightarrow> real" where
  "quote_side side q = (case side of Bid \<Rightarrow> bid q | Ask \<Rightarrow> ask q | Mid \<Rightarrow> mid q)"

text \<open>\<open>get_option_price\<close>; each \<open>raise ValueError\<close> is its own error value.\<close>

definition get_option_price :: "PortfolioManager \<Rightarrow> real \<Rightarrow> PriceSide \<Rightarrow> error + real" where
  "get_option_price pm k side =
     (case current_option_prices pm of
        None \<Rightarrow> Inl NoOptionPrices
      | Some qs \<Rightarrow>
          (case current_market_data pm of
             None \<Rightarrow> Inl NoMarketData
           | Some md \<Rightarrow>
               (case filter (\<lambda>q. strike q = k) qs of
                  [] \<Rightarrow> Inl (StrikeNotAvailable k)
                | q # _ \<Rightarrow> Inr (quote_side side q))))"

definition calculate_position_limit :: "PortfolioManager \<Rightarrow> string \<Rightarrow> real \<Rightarrow> error + int" where
  "calculate_position_limit pm uid k =
     (case map_of (users pm) uid of
        None \<Rightarrow> Inl KeyError
      | Some u \<Rightarrow>
          (case get_option_price pm k Ask of
             Inl e \<Rightarrow> Inl e
           | Inr ask_price \<Rightarrow>
               (let max_by_cash =
                      (if 0 < ask_price then py_int ((current_cash u * (2 / 10)) / ask_price)
                       else 0)
                in Inr (max 10 max_by_cash))))"

text \<open>The reason carried by the message of an \<open>execute_trade\<close> result.\<close>

datatype trade_msg =
    UserNotFound
  | MarketAlreadyResolved
  | QuantityMustBePositive
  | NoMarketDataForTrading
  | PositionLimitError error
  | WouldExceedLimit int
  | InsufficientCash real real
  | CannotSell int int
  | OptionPriceError error
  | InvalidOptionPrice real
  | NoMarketDataForExecution
  | DatabaseErrorMsg
  | TradeExecuted

text \<open>What the environment gives one \<open>execute_trade\<close> call: the fresh trade id, the
  clock, and whether one of the two database writes raises.\<close>

record trade_env =
  new_trade_id :: string
  now :: nat
  db_raises :: bool

text \<open>The \<open>try\<close> block that fetches the price (ask for BUY, bid for SELL) and checks
  cash or holdings; any exception inside becomes a rejection.\<close>

definition price_and_cost ::
  "PortfolioManager \<Rightarrow> string \<Rightarrow> real \<Rightarrow> int \<Rightarrow> TradeType \<Rightarrow> Position
     \<Rightarrow> trade_msg + real \<times> real" where
  "price_and_cost pm uid k q tt current_position =
     (if tt = BUY then
        (case get_option_price pm k Ask of
           Inl e \<Rightarrow> Inl (OptionPriceError e)
         | Inr price \<Rightarrow>
             (case map_of (users pm) uid of
                None \<Rightarrow> Inl (OptionPriceError KeyError)
              | Some u \<Rightarrow>
                  if current_cash u < of_int q * price
                  then Inl (InsufficientCash (of_int q * price) (current_cash u))
                  else Inr (price, of_int q * price)))
      else
        (case get_option_price pm k Bid of
           Inl e \<Rightarrow> Inl (OptionPriceError e)
         | Inr price \<Rightarrow>
             if pos_quantity current_position < q
             then Inl (CannotSell q (pos_quantity current_position))
             else Inr (price, of_int q * price)))"

text \<open>The in-memory mutation of an accepted trade: cash, then the position.\<close>

definition apply_trade ::
  "PortfolioManager \<Rightarrow> string \<Rightarrow> User \<Rightarrow> (real \<times> Position) list \<Rightarrow> Trade \<Rightarrow> real
     \<Rightarrow> PortfolioManager" where
  "apply_trade pm uid u ps t cost =
     (let k = strike_price t;
          u' = (if trade_type t = BUY then u\<lparr>current_cash := current_cash u - cost\<rparr>
                else u\<lparr>current_cash := current_cash u + cost\<rparr>);
          p = (case map_of ps k of None \<Rightarrow> Position_init uid k | Some p0 \<Rightarrow> p0)
      in pm\<lparr>users := AList.update uid u' (users pm),
            positions := AList.update uid (AList.update k (add_trade p t) ps) (positions pm)\<rparr>)"

text \<open>The \<open>except\<close> branch after a failed database write, run on the mutated state:
  cash is put back, the last trade is popped and quantity and cost basis are
  recomputed from the remaining trades.\<close>

definition rollback_position :: "Position \<Rightarrow> Position" where
  "rollback_position p =
     (if 0 < length (trades p)
      then p\<lparr>trades := butlast (trades p),
             pos_quantity := sum_signed_quantity (butlast (trades p)),
             total_cost_basis := sum_total_cost (butlast (trades p))\<rparr>
      else p)"

definition rollback_trade ::
  "PortfolioManager \<Rightarrow> string \<Rightarrow> real \<Rightarrow> TradeType \<Rightarrow> real \<Rightarrow> error + PortfolioManager" where
  "rollback_trade pm uid k tt cost =
     (case map_of (users pm) uid of
        None \<Rightarrow> Inl KeyError
      | Some u \<Rightarrow>
          (case map_of (positions pm) uid of
             None \<Rightarrow> Inl KeyError
           | Some ps \<Rightarrow>
               (case map_of ps k of
                  None \<Rightarrow> Inl KeyError
                | Some p \<Rightarrow>
                    (let u' = (if tt = BUY then u\<lparr>current_cash := current_cash u + cost\<rparr>
                               else u\<lparr>current_cash := current_cash u - cost\<rparr>)
                     in Inr (pm\<lparr>users := AList.update uid u' (users pm),
                                 positions :=
                                   AList.update uid (AList.update k (rollback_position p) ps)
                                     (positions pm)\<rparr>)))))"

text \<open>The validation part of \<open>execute_trade\<close>, check by check in the order of the
  source, up to the read of the latest market price. \<open>Inl\<close> is what the call then
  returns (a rejection) or the exception that escapes; \<open>Inr\<close> carries what the
  execution part uses: the user, the user's positions, the price per contract, the
  unsigned cost and the market price.\<close>

definition validate_trade ::
  "PortfolioManager \<Rightarrow> string \<Rightarrow> real \<Rightarrow> int \<Rightarrow> TradeType
     \<Rightarrow> (error + bool \<times> trade_msg) + User \<times> (real \<times> Position) list \<times> real \<times> real \<times> real" where
  "validate_trade pm uid k q tt =
     (case map_of (users pm) uid of
        None \<Rightarrow> Inl (Inr (False, UserNotFound))
      | Some u \<Rightarrow>
          if market_resolved pm then Inl (Inr (False, MarketAlreadyResolved))
          else if q \<le> 0 then Inl (Inr (False, QuantityMustBePositive))
          else if current_option_prices pm = None then Inl (Inr (False, NoMarketDataForTrading))
          else
            (case calculate_position_limit pm uid k of
               Inl e \<Rightarrow> Inl (Inr (False, PositionLimitError e))
             | Inr position_limit \<Rightarrow>
                 (case map_of (positions pm) uid of
                    None \<Rightarrow> Inl (Inl KeyError)
                  | Some ps \<Rightarrow>
                      (let current_position =
                             (case map_of ps k of None \<Rightarrow> Position_init uid k | Some p \<Rightarrow> p)
                       in if tt = BUY \<and> position_limit < pos_quantity current_position + q
                          then Inl (Inr (False, WouldExceedLimit position_limit))
                          else
                            (case price_and_cost pm uid k q tt current_position of
                               Inl m \<Rightarrow> Inl (Inr (False, m))
                             | Inr (price, cost) \<Rightarrow>
                                 if price \<le> 0 then Inl (Inr (False, InvalidOptionPrice price))
                                 else
                                   (case current_market_data pm of
                                      None \<Rightarrow> Inl (Inr (False, NoMarketDataForExecution))
                                    | Some md \<Rightarrow>
                                        if md = [] then Inl (Inl IndexError)
                                        else Inr (u, ps, price, cost, last md)))))))"

text \<open>The \<open>Trade\<close> object of an accepted trade: \<open>total_cost\<close> is stored positive for
  a BUY and negated for a SELL.\<close>

definition build_trade ::
  "trade_env \<Rightarrow> string \<Rightarrow> real \<Rightarrow> int \<Rightarrow> TradeType \<Rightarrow> real \<Rightarrow> real \<Rightarrow> real \<Rightarrow> Trade" where
  "build_trade env uid k q tt price cost market_price =
     \<lparr>trade_id = new_trade_id env, user_id = uid, timestamp = now env, trade_type = tt,
      strike_price = k, quantity = q, price_per_contract = price,
      total_cost = (if tt = BUY then cost else - cost),
      market_price_at_trade = market_price\<rparr>"

text \<open>\<open>execute_trade\<close>: validation, the in-memory mutation, then the database writes
  and, if one raises, the rollback. The result is the returned pair or the exception
  that escapes, together with the state afterwards.\<close>

definition execute_trade ::
  "PortfolioManager \<Rightarrow> trade_env \<Rightarrow> string \<Rightarrow> real \<Rightarrow> int \<Rightarrow> TradeType
     \<Rightarrow> (error + bool \<times> trade_msg) \<times> PortfolioManager" where
  "execute_trade pm env uid k q tt =
     (case validate_trade pm uid k q tt of
        Inl r \<Rightarrow> (r, pm)
      | Inr (u, ps, price, cost, market_price) \<Rightarrow>
          (let trade = build_trade env uid k q tt price cost market_price;
               pm2 = apply_trade pm uid u ps trade cost
           in if db_raises env
              then
                (case rollback_trade pm2 uid k tt cost of
                   Inl e \<Rightarrow> (Inl e, pm2)
                 | Inr pm3 \<Rightarrow> (Inr (False, DatabaseErrorMsg), pm3))
              else (Inr (True, TradeExecuted), pm2)))"

text \<open>One entry of \<open>positions_summary\<close>, and the dictionary \<open>get_user_portfolio\<close>
  returns.\<close>

record PositionSummary =
  ps_strike :: real
  ps_quantity :: int
  avg_cost :: real
  current_price :: real
  position_value :: real
  unrealized_pnl :: real
  ps_total_cost_basis :: real

record Portfolio =
  user_info :: User
  cash :: real
  total_position_value :: real
  total_portfolio_value :: real
  total_unrealized_pnl :: real
  pf_total_realized_pnl :: real
  total_pnl :: real
  pf_positions :: "PositionSummary list"

definition position_summary :: "real \<Rightarrow> Position \<Rightarrow> real \<Rightarrow> PositionSummary" where
  "position_summary k p price =
     \<lparr>ps_strike = k, ps_quantity = pos_quantity p,
      avg_cost = get_average_cost_per_contract p,
      current_price = price,
      position_value = of_int (pos_quantity p) * price,
      unrealized_pnl = calculate_unrealized_pnl p price,
      ps_total_cost_basis = total_cost_basis p\<rparr>"

text \<open>The loop of \<open>get_user_portfolio\<close> over the user's positions: the summary list
  and the two running totals; a failed price lookup escapes as the exception.\<close>

fun summarize_positions ::
  "PortfolioManager \<Rightarrow> (real \<times> Position) list \<Rightarrow> PositionSummary list \<times> real \<times> real
     \<Rightarrow> error + PositionSummary list \<times> real \<times> real" where
  "summarize_positions pm [] acc = Inr acc"
| "summarize_positions pm ((k, p) # ps) (rows, unreal, value) =
     (if pos_quantity p \<noteq> 0 then
        (case get_option_price pm k Mid of
           Inl e \<Rightarrow> Inl e
         | Inr price \<Rightarrow>
             summarize_positions pm ps
               (rows @ [position_summary k p price],
                unreal + calculate_unrealized_pnl p price,
                value + of_int (pos_quantity p) * price))
      else summarize_positions pm ps (rows, unreal, value))"

text \<open>\<open>get_user_portfolio\<close>: \<open>None\<close> is the empty dictionary of an unknown user.\<close>

definition get_user_portfolio :: "PortfolioManager \<Rightarrow> string \<Rightarrow> error + Portfolio option" where
  "get_user_portfolio pm uid =
     (case map_of (users pm) uid of
        None \<Rightarrow> Inr None
      | Some user_data \<Rightarrow>
          (case map_of (positions pm) uid of
             None \<Rightarrow> Inl KeyError
           | Some ps \<Rightarrow>
               (case summarize_positions pm ps ([], 0, 0) of
                  Inl e \<Rightarrow> Inl e
                | Inr (rows, unreal, value) \<Rightarrow>
                    Inr (Some
                      \<lparr>user_info = user_data,
                       cash = current_cash user_data,
                       total_position_value = value,
                       total_portfolio_value = current_cash user_data + value,
                       total_unrealized_pnl = unreal,
                       pf_total_realized_pnl = total_realized_pnl user_data,
                       total_pnl = unreal + total_realized_pnl user_data,
                       pf_positions = rows\<rparr>))))"

text \<open>The inner loop of \<open>resolve_market\<close> for one user: every position with a
  nonzero quantity is settled and the returned value is added to the user's cash.\<close>

fun settle_positions ::
  "real \<Rightarrow> real \<Rightarrow> (real \<times> Position) list \<Rightarrow> real \<times> (real \<times> Position) list" where
  "settle_positions final c [] = (c, [])"
| "settle_positions final c ((k, p) # ps) =
     (if pos_quantity p \<noteq> 0 then
        (case settle_position p final k of
           (sv, p') \<Rightarrow>
             (case settle_positions final (c + sv) ps of
                (c', ps') \<Rightarrow> (c', (k, p') # ps')))
      else
        (case settle_positions final c ps of
           (c', ps') \<Rightarrow> (c', (k, p) # ps')))"

text \<open>The outer loop over the user ids; \<open>db_raises uid\<close> says whether
  \<open>_update_user_cash_in_db\<close> raises for that user, which ends the call with the
  users before it settled.\<close>

fun resolve_users ::
  "(string \<Rightarrow> bool) \<Rightarrow> real \<Rightarrow> string list \<Rightarrow> PortfolioManager
     \<Rightarrow> error option \<times> PortfolioManager" where
  "resolve_users dbr final [] pm = (None, pm)"
| "resolve_users dbr final (uid # uids) pm =
     (case map_of (positions pm) uid of
        None \<Rightarrow> (Some KeyError, pm)
      | Some ps \<Rightarrow>
          (case map_of (users pm) uid of
             None \<Rightarrow> (Some KeyError, pm)
           | Some u \<Rightarrow>
               (case settle_positions final (current_cash u) ps of
                  (c', ps') \<Rightarrow>
                    (let u' = u\<lparr>current_cash := c',
                                 total_realized_pnl := c' - starting_cash u\<rparr>;
                         pm' = pm\<lparr>users := AList.update uid u' (users pm),
                                   positions := AList.update uid ps' (positions pm)\<rparr>
                     in if dbr uid then (Some DatabaseError, pm')
                        else resolve_users dbr final uids pm'))))"

definition resolve_market ::
  "PortfolioManager \<Rightarrow> (string \<Rightarrow> bool) \<Rightarrow> real \<Rightarrow> error option \<times> PortfolioManager" where
  "resolve_market pm dbr final =
     resolve_users dbr final (map fst (users pm))
       (pm\<lparr>market_resolved := True, final_market_price := Some final\<rparr>)"

text \<open>A run of the ledger: the calls a client can make, applied in order. A call
  that raises leaves the state it had reached.\<close>

datatype ledger_call =
    UpdateMarket "real list"
  | ExecuteTrade trade_env string real int TradeType
  | ResolveMarket "string \<Rightarrow> bool" real

fun ledger_step :: "PortfolioManager \<Rightarrow> ledger_call \<Rightarrow> PortfolioManager" where
  "ledger_step pm (UpdateMarket df) = snd (update_market_data pm df)"
| "ledger_step pm (ExecuteTrade env uid k q tt) = snd (execute_trade pm env uid k q tt)"
| "ledger_step pm (ResolveMarket dbr final) = snd (resolve_market pm dbr final)"

definition ledger_run :: "PortfolioManager \<Rightarrow> ledger_call list \<Rightarrow> PortfolioManager" where
  "ledger_run pm calls = foldl ledger_step pm calls"

text \<open>The quote of one strike, as \<open>update_market_data\<close> computes it from a single
  row (decay multiplier 1).\<close>

definition quote_of :: "real \<Rightarrow> real \<Rightarrow> real \<Rightarrow> OptionQuote" where
  "quote_of y n k =
     \<lparr>strike = k, bid = y * (1 - k), ask = (1 - n) * (1 - k),
      mid = (y * (1 - k) + (1 - n) * (1 - k)) / 2\<rparr>"

text \<open>A freshly constructed manager with one user, as \<open>create_user\<close> leaves it.\<close>

definition alice :: User where
  "alice = \<lparr>username = ''Alice'', starting_cash = 15000, current_cash = 15000,
            total_realized_pnl = 0\<rparr>"

definition fresh_ledger :: PortfolioManager where
  "fresh_ledger =
     \<lparr>users = [(''u1'', alice)], positions = [(''u1'', [])],
      current_market_data = None, current_option_prices = None,
      market_resolved = False, final_market_price = None\<rparr>"

definition db_ok :: trade_env where
  "db_ok = \<lparr>new_trade_id = ''t'', now = 0, db_raises = False\<rparr>"

definition db_down :: trade_env where
  "db_down = \<lparr>new_trade_id = ''t'', now = 0, db_raises = True\<rparr>"

text \<open>The demo of the source: the market at 60, a BUY of 10 and a SELL of 3 at strike
  0.5.\<close>

definition demo_ledger :: PortfolioManager where
  "demo_ledger =
     ledger_run fresh_ledger
       [UpdateMarket [60], ExecuteTrade db_ok ''u1'' (1 / 2) 10 BUY,
        ExecuteTrade db_ok ''u1'' (1 / 2) 3 SELL]"

text \<open>The state the rollback branch of \<open>execute_trade\<close> leaves, in terms of the
  state before the trade.\<close>

definition rolled_back ::
  "PortfolioManager \<Rightarrow> string \<Rightarrow> User \<Rightarrow> (real \<times> Position) list \<Rightarrow> Trade \<Rightarrow> PortfolioManager" where
  "rolled_back pm uid u ps t =
     pm\<lparr>users := AList.update uid u (users pm),
        positions :=
          AList.update uid
            (AList.update (strike_price t)
               (rollback_position
                  (add_trade (case map_of ps (strike_price t) of
                                None \<Rightarrow> Position_init uid (strike_price t)
                              | Some p0 \<Rightarrow> p0) t)) ps)
            (positions pm)\<rparr>"

text \<open>No user holds negative cash.\<close>

definition cash_nonneg :: "PortfolioManager \<Rightarrow> bool" where
  "cash_nonneg pm = (\<forall>uid u. map_of (users pm) uid = Some u \<longrightarrow> 0 \<le> current_cash u)"

text \<open>The calls made while the market is open: price updates and trades.\<close>

fun is_trading_call :: "ledger_call \<Rightarrow> bool" where
  "is_trading_call (ResolveMarket dbr final) = False"
| "is_trading_call c = True"

text \<open>The position a trade at \<open>(uid, k)\<close> reads:
  \<open>self.positions[uid].get(k, Position(uid, k))\<close>.\<close>

definition position_of :: "PortfolioManager \<Rightarrow> string \<Rightarrow> real \<Rightarrow> Position" where
  "position_of pm uid k =
     (case map_of (positions pm) uid of
        None \<Rightarrow> Position_init uid k
      | Some ps \<Rightarrow> (case map_of ps k of None \<Rightarrow> Position_init uid k | Some p \<Rightarrow> p))"

text \<open>Every position holds the sum of its trades' signed quantities, and that sum is
  not negative.\<close>

definition holdings_consistent :: "PortfolioManager \<Rightarrow> bool" where
  "holdings_consistent pm =
     (\<forall>uid k. pos_quantity (position_of pm uid k)
                 = sum_signed_quantity (trades (position_of pm uid k))
               \<and> 0 \<le> pos_quantity (position_of pm uid k))"

text \<open>The demo after its first trade, and the records it builds.\<close>

definition bought_ledger :: PortfolioManager where
  "bought_ledger =
     ledger_run fresh_ledger [UpdateMarket [60], ExecuteTrade db_ok ''u1'' (1 / 2) 10 BUY]"

definition buy_10 :: Trade where
  "buy_10 = \<lparr>trade_id = ''t'', user_id = ''u1'', timestamp = 0, trade_type = BUY,
              strike_price = 1 / 2, quantity = 10, price_per_contract = 3 / 10,
              total_cost = 3, market_price_at_trade = 60\<rparr>"

definition sell_3 :: Trade where
  "sell_3 = \<lparr>trade_id = ''t'', user_id = ''u1'', timestamp = 0, trade_type = SELL,
              strike_price = 1 / 2, quantity = 3, price_per_contract = 3 / 10,
              total_cost = - (9 / 10), market_price_at_trade = 60\<rparr>"

definition demo_quotes :: "OptionQuote list" where
  "demo_quotes = map (quote_of (6 / 10) (4 / 10)) strikes"

text \<open>The position of the demo after its two trades.\<close>

definition demo_position :: Position where
  "demo_position =
     \<lparr>pos_user_id = ''u1'', pos_strike_price = 1 / 2, pos_quantity = 7,
      total_cost_basis = 39 / 10, trades = [buy_10, sell_3], status = OPEN,
      settlement_value = 0\<rparr>"

text \<open>A database whose writes all succeed.\<close>

definition never_raises :: "string \<Rightarrow> bool" where
  "never_raises uid = False"

text \<open>The demo position after settlement at 65.\<close>

definition settled_position :: Position where
  "settled_position = demo_position\<lparr>settlement_value := 105 / 100, status := SETTLED\<rparr>"

text \<open>The mid price \<open>get_option_price(strike, "mid")\<close> returns, 0 where the call
  raises (a snapshot that is returned has looked up no such strike).\<close>

definition mid_of :: "PortfolioManager \<Rightarrow> real \<Rightarrow> real" where
  "mid_of pm k = (case get_option_price pm k Mid of Inl e \<Rightarrow> 0 | Inr x \<Rightarrow> x)"

text \<open>The positions \<open>get_user_portfolio\<close> shows: those with a nonzero quantity.\<close>

definition held :: "(real \<times> Position) list \<Rightarrow> (real \<times> Position) list" where
  "held ps = filter (\<lambda>(k, p). pos_quantity p \<noteq> 0) ps"

text \<open>The demo run resolved at 65, and the snapshot of its user.\<close>

definition resolved_ledger :: PortfolioManager where
  "resolved_ledger = snd (resolve_market demo_ledger never_raises 65)"

definition resolved_snapshot :: Portfolio where
  "resolved_snapshot =
     \<lparr>user_info = alice\<lparr>current_cash := 1499895 / 100, total_realized_pnl := - (105 / 100)\<rparr>,
      cash = 1499895 / 100,
      total_position_value = 21 / 10,
      total_portfolio_value = 1500105 / 100,
      total_unrealized_pnl = 0,
      pf_total_realized_pnl = - (105 / 100),
      total_pnl = - (105 / 100),
      pf_positions =
        [\<lparr>ps_strike = 1 / 2, ps_quantity = 7, avg_cost = 39 / 70, current_price = 3 / 10,
          position_value = 21 / 10, unrealized_pnl = 0, ps_total_cost_basis = 39 / 10\<rparr>]\<rparr>"

section \<open>live_simulator.py: the price process\<close>

datatype SimulationState = STOPPED | RUNNING | PAUSED | COMPLETED

text \<open>One emitted data point. \<open>dp_timestamp\<close> counts minutes from \<open>start_time\<close>.\<close>

record DataPoint =
  dp_timestamp :: int
  dp_price :: real
  dp_movement :: real
  dp_volume :: int
  dp_bid_ask_spread :: real
  dp_market_resolution :: bool
  dp_point_index :: int

text \<open>The state of \<open>LiveMarketSimulator\<close>. \<open>stop_event\<close> and \<open>pause_event\<close> are the two
  \<open>threading.Event\<close> flags. The CSV file and the callbacks are left out: a callback
  gets a copy of the point and its exceptions are caught, so neither changes the
  simulator.\<close>

record LiveMarketSimulator =
  total_points :: int
  initial_price :: real
  volatility :: real
  threshold_point :: int
  trend_strength :: real
  max_movement :: real
  final_resolution :: bool
  target_price :: real
  current_point_index :: int
  sim_current_price :: real
  previous_movement :: real
  simulation_state :: SimulationState
  data_history :: "DataPoint list"
  current_data_point :: "DataPoint option"
  time_interval :: real
  stop_event :: bool
  pause_event :: bool

text \<open>\<open>__init__\<close>; \<open>choice\<close> is the outcome of \<open>random.choice([True, False])\<close>.\<close>

definition LiveMarketSimulator_init ::
  "int \<Rightarrow> real \<Rightarrow> real \<Rightarrow> real \<Rightarrow> real \<Rightarrow> real \<Rightarrow> bool \<Rightarrow> LiveMarketSimulator" where
  "LiveMarketSimulator_init n ip vol threshold_percentage ts mm choice =
     \<lparr>total_points = n,
      initial_price = max 15 (min 85 ip),
      volatility = vol,
      threshold_point = py_int (of_int n * threshold_percentage),
      trend_strength = ts,
      max_movement = mm,
      final_resolution = choice,
      target_price = (if choice then 95 else 5),
      current_point_index = 0,
      sim_current_price = max 15 (min 85 ip),
      previous_movement = 0,
      simulation_state = STOPPED,
      data_history = [],
      current_data_point = None,
      time_interval = 1,
      stop_event = False,
      pause_event = False\<rparr>"

text \<open>\<open>apply_soft_bounds\<close>: dampening past the warning zone, then the hard clamp.\<close>

definition apply_soft_bounds :: "real \<Rightarrow> real \<Rightarrow> bool \<Rightarrow> real" where
  "apply_soft_bounds p m is_pre_threshold =
     (let comfort_lo = (if is_pre_threshold then 12 else 5);
          comfort_hi = (if is_pre_threshold then 88 else 95);
          warning_lo = (if is_pre_threshold then 8 else 2);
          warning_hi = (if is_pre_threshold then 92 else 98);
          new_price = p + m;
          new_price' =
            (if new_price < warning_lo then
               (if new_price < comfort_lo
                then p + m * (1 - min (6 / 10) ((comfort_lo - new_price) * (1 / 10)))
                else new_price)
             else if warning_hi < new_price then
               (if comfort_hi < new_price
                then p + m * (1 - min (6 / 10) ((new_price - comfort_hi) * (1 / 10)))
                else new_price)
             else new_price)
      in if is_pre_threshold then max 5 (min 95 new_price')
         else max 1 (min 99 new_price'))"

text \<open>What one step draws. \<open>np.random.normal(0, scale)\<close> is \<open>scale\<close> times a standard
  normal variate, which is \<open>normal_draw\<close>; it raises \<open>ValueError\<close> for a negative
  scale. \<open>base_volume\<close> is \<open>random.randint(50, 200)\<close> and \<open>spread_draw\<close> is
  \<open>random.uniform(-0.2, 0.2)\<close>.\<close>

record draws =
  normal_draw :: real
  base_volume :: int
  spread_draw :: real

text \<open>\<open>generate_price_movement\<close>; the quotients of the trending branch divide by
  \<open>total_points - threshold_point\<close>.\<close>

definition generate_price_movement ::
  "LiveMarketSimulator \<Rightarrow> real \<Rightarrow> int \<Rightarrow> real \<Rightarrow> real \<Rightarrow> error + real" where
  "generate_price_movement s cp point_index prev u =
     (let remaining_points = total_points s - point_index
      in if point_index < threshold_point s then
           (if volatility s < 0 then Inl ValueError
            else
              (let momentum_factor = (2 / 10) * prev;
                   random_component = volatility s * u;
                   weak_signal = (1 / 100) * (target_price s - cp) / 100;
                   m = momentum_factor + random_component + weak_signal
               in Inr (max (- max_movement s) (min (max_movement s) m))))
         else if total_points s - threshold_point s = 0 then Inl ZeroDivisionError
         else
           (let distance_to_target = target_price s - cp;
                trend_progress =
                  of_int (point_index - threshold_point s)
                    / of_int (total_points s - threshold_point s);
                base_trend = trend_strength s * distance_to_target / 100;
                progressive_trend = base_trend * (1 / 10 + (9 / 10) * trend_progress);
                volatility_factor =
                  75 / 100
                    + (25 / 100)
                        * (of_int remaining_points / of_int (total_points s - threshold_point s));
                current_volatility = volatility s * volatility_factor
            in if current_volatility < 0 then Inl ValueError
               else
                 (let random_component = current_volatility * u;
                      momentum_factor = (15 / 100) * prev;
                      m = progressive_trend + random_component + momentum_factor
                  in Inr (max (- max_movement s) (min (max_movement s) m)))))"

text \<open>\<open>generate_next_data_point\<close>: the returned point (\<open>None\<close> when complete) or the
  exception, and the simulator afterwards.\<close>

definition generate_next_data_point ::
  "LiveMarketSimulator \<Rightarrow> draws \<Rightarrow> (error + DataPoint option) \<times> LiveMarketSimulator" where
  "generate_next_data_point s d =
     (if total_points s \<le> current_point_index s
      then (Inr None, s\<lparr>simulation_state := COMPLETED\<rparr>)
      else
        (case (if 0 < current_point_index s
               then generate_price_movement s (sim_current_price s) (current_point_index s)
                      (previous_movement s) (normal_draw d)
               else Inr 0) of
           Inl e \<Rightarrow> (Inl e, s)
         | Inr m \<Rightarrow>
             (let s1 =
                    (if 0 < current_point_index s
                     then s\<lparr>sim_current_price :=
                              apply_soft_bounds (sim_current_price s) m
                                (current_point_index s < threshold_point s),
                            previous_movement := m\<rparr>
                     else s);
                  spread = max (1 / 10) (5 / 10 + spread_draw d + \<bar>m\<bar> * (1 / 10));
                  data_point =
                    \<lparr>dp_timestamp = 5 * current_point_index s,
                     dp_price = py_round (sim_current_price s1) 2,
                     dp_movement = py_round m 3,
                     dp_volume = py_int (of_int (base_volume d) * (1 + \<bar>m\<bar> * (5 / 10))),
                     dp_bid_ask_spread = py_round spread 2,
                     dp_market_resolution = final_resolution s,
                     dp_point_index = current_point_index s\<rparr>
              in (Inr (Some data_point),
                  s1\<lparr>data_history := data_history s1 @ [data_point],
                     current_data_point := Some data_point,
                     current_point_index := current_point_index s + 1\<rparr>))))"

text \<open>Manual stepping: \<open>step()\<close> after \<open>step()\<close>, one draw each; a call that raises
  leaves the simulator as it was.\<close>

definition run_steps :: "LiveMarketSimulator \<Rightarrow> draws list \<Rightarrow> LiveMarketSimulator" where
  "run_steps s ds = foldl (\<lambda>s d. snd (generate_next_data_point s d)) s ds"

text \<open>\<open>start_live_simulation\<close>. In auto mode it starts the thread that runs
  \<open>simulation_loop\<close> below; in manual mode there is no thread.\<close>

definition start_live_simulation :: "LiveMarketSimulator \<Rightarrow> real \<Rightarrow> bool \<Rightarrow> LiveMarketSimulator" where
  "start_live_simulation s interval auto =
     (if simulation_state s = RUNNING then s
      else if auto
      then s\<lparr>time_interval := interval, simulation_state := RUNNING,
             stop_event := False, pause_event := False\<rparr>
      else s\<lparr>time_interval := interval, simulation_state := PAUSED,
             stop_event := False, pause_event := False\<rparr>)"

text \<open>The code after the \<open>while\<close> loop of \<open>_simulation_loop\<close>: the final state and the
  terminal price adjustment, written into the last point of the history and into
  \<open>current_data_point\<close>.\<close>

definition terminal_price :: "LiveMarketSimulator \<Rightarrow> real" where
  "terminal_price s =
     max 2 (min 98 (sim_current_price s + (target_price s - sim_current_price s) * (4 / 10)))"

definition finish_simulation :: "LiveMarketSimulator \<Rightarrow> LiveMarketSimulator" where
  "finish_simulation s =
     (let s1 = s\<lparr>simulation_state :=
                   (if total_points s \<le> current_point_index s then COMPLETED else STOPPED)\<rparr>
      in if data_history s1 = [] then s1
         else s1\<lparr>sim_current_price := terminal_price s,
                 data_history :=
                   butlast (data_history s)
                     @ [(last (data_history s))\<lparr>dp_price := py_round (terminal_price s) 2\<rparr>],
                 current_data_point :=
                   map_option (\<lambda>dp. dp\<lparr>dp_price := py_round (terminal_price s) 2\<rparr>)
                     (current_data_point s)\<rparr>)"






text \<open>Demo simulators with the default parameters: one of 500 points, and one of
  \<open>n\<close> points started in manual mode; draws that move nothing, and draws with half a
  standard deviation.\<close>

definition demo_sim :: LiveMarketSimulator where
  "demo_sim = LiveMarketSimulator_init 500 50 (18 / 10) (7 / 10) (8 / 100) 4 True"


definition still :: draws where
  "still = \<lparr>normal_draw = 0, base_volume = 100, spread_draw = 0\<rparr>"

definition half_sigma :: draws where
  "half_sigma = \<lparr>normal_draw = 1 / 2, base_volume = 100, spread_draw = 0\<rparr>"





text \<open>The hard bounds of an emitted price, by the index of its point.\<close>

definition price_in_bounds :: "int \<Rightarrow> DataPoint \<Rightarrow> bool" where
  "price_in_bounds thr dp =
     (if dp_point_index dp < thr then 5 \<le> dp_price dp \<and> dp_price dp \<le> 95
      else 1 \<le> dp_price dp \<and> dp_price dp \<le> 99)"

text \<open>What every reachable simulator satisfies: the index is not negative, the
  current price is within the bounds of the last emitted index (within [15, 85] before
  the first point), every point of the history is within its bounds, and the history
  holds the indices in order.\<close>

definition sim_inv :: "LiveMarketSimulator \<Rightarrow> bool" where
  "sim_inv s =
     (0 \<le> current_point_index s
      \<and> (current_point_index s = 0 \<longrightarrow> 15 \<le> sim_current_price s \<and> sim_current_price s \<le> 85)
      \<and> (0 < current_point_index s \<longrightarrow>
            (if current_point_index s - 1 < threshold_point s
             then 5 \<le> sim_current_price s \<and> sim_current_price s \<le> 95
             else 1 \<le> sim_current_price s \<and> sim_current_price s \<le> 99))
      \<and> (\<forall>dp \<in> set (data_history s). price_in_bounds (threshold_point s) dp)
      \<and> map dp_point_index (data_history s) = map int [0..<nat (current_point_index s)])"

section \<open>Properties of the pricing transform\<close>

lemma priced_row_nth:
  assumes "i < length df"
  shows "compute_option_prices_from_df df k d ! i =
           price_row k d (int (length df) - 1) (i, df ! i)"
  using assms by (simp add: compute_option_prices_from_df_def nth_enumerate_eq)

lemma decay_at_antimono:
  assumes "0 < d" and "T1 \<noteq> 0" and "T2 \<noteq> 0"
    and "real t1 / real_of_int T1 \<le> real t2 / real_of_int T2"
  shows "decay_at d T2 t2 \<le> decay_at d T1 t1"
proof -
  have "d * (real t1 / real_of_int T1) \<le> d * (real t2 / real_of_int T2)"
    by (rule mult_left_mono) (use assms(1,4) in simp_all)
  then show ?thesis
    using assms(2,3) by (simp add: decay_at_def)
qed

lemma price_logic_row_nth:
  assumes "i < length df"
  shows "compute_option_prices_from_df_price_logic df k d ! i =
           price_logic_row k d (int (length df) - 1) (i, df ! i)"
  using assms by (simp add: compute_option_prices_from_df_price_logic_def nth_enumerate_eq)

text \<open>
  Claim C8, for both copies of \<open>compute_option_prices_from_df\<close>. In the copy of
  \<open>PortfolioManager\<close>, with a positive decay rate, the decay multiplier does not
  increase when the elapsed fraction \<open>t / T\<close> grows, it is 1 at index 0 and it is 1 for
  a frame with a single row; in every row
  \<open>option_bid = yes * (1 - strike) * decay_multiplier\<close> and
  \<open>option_ask = (1 - no) * (1 - strike) * decay_multiplier\<close>. The copy of
  \<open>pricing/price-logic.py\<close> computes the same three columns on every frame that does
  not have exactly one row; on a frame of one row its multiplier, bid and ask are NaN,
  not 1.
\<close>

theorem decay_multiplier_behaviour:
  assumes "0 < decay_rate"
  shows "(T1 \<noteq> 0 \<and> T2 \<noteq> 0 \<and> real t1 / real_of_int T1 \<le> real t2 / real_of_int T2
            \<longrightarrow> decay_at decay_rate T2 t2 \<le> decay_at decay_rate T1 t1)
       \<and> decay_at decay_rate T 0 = 1
       \<and> decay_at decay_rate 0 t = 1
       \<and> (i < length df \<longrightarrow>
            decay_multiplier (compute_option_prices_from_df df k decay_rate ! i)
              = decay_at decay_rate (int (length df) - 1) i
          \<and> option_bid (compute_option_prices_from_df df k decay_rate ! i)
              = fst (df ! i) * (1 - k)
                  * decay_multiplier (compute_option_prices_from_df df k decay_rate ! i)
          \<and> option_ask (compute_option_prices_from_df df k decay_rate ! i)
              = (1 - snd (df ! i)) * (1 - k)
                  * decay_multiplier (compute_option_prices_from_df df k decay_rate ! i))
       \<and> (length df = 1 \<longrightarrow>
            decay_multiplier (compute_option_prices_from_df df k decay_rate ! 0) = 1)
       \<and> (i < length df \<and> length df \<noteq> 1 \<longrightarrow>
            pl_decay_multiplier (compute_option_prices_from_df_price_logic df k decay_rate ! i)
              = Some (decay_multiplier (compute_option_prices_from_df df k decay_rate ! i))
          \<and> pl_option_bid (compute_option_prices_from_df_price_logic df k decay_rate ! i)
              = Some (option_bid (compute_option_prices_from_df df k decay_rate ! i))
          \<and> pl_option_ask (compute_option_prices_from_df_price_logic df k decay_rate ! i)
              = Some (option_ask (compute_option_prices_from_df df k decay_rate ! i)))
       \<and> (length df = 1 \<longrightarrow>
            pl_decay_multiplier (compute_option_prices_from_df_price_logic df k decay_rate ! 0)
              = None
          \<and> pl_option_bid (compute_option_prices_from_df_price_logic df k decay_rate ! 0) = None
          \<and> pl_option_ask (compute_option_prices_from_df_price_logic df k decay_rate ! 0) = None)"
proof (intro conjI impI)
  assume "T1 \<noteq> 0 \<and> T2 \<noteq> 0 \<and> real t1 / real_of_int T1 \<le> real t2 / real_of_int T2"
  then show "decay_at decay_rate T2 t2 \<le> decay_at decay_rate T1 t1"
    using assms decay_at_antimono by blast
next
  show "decay_at decay_rate T 0 = 1" by (simp add: decay_at_def)
next
  show "decay_at decay_rate 0 t = 1" by (simp add: decay_at_def)
next
  assume i: "i < length df"
  obtain y n where yn: "df ! i = (y, n)" by (cases "df ! i")
  show "decay_multiplier (compute_option_prices_from_df df k decay_rate ! i)
              = decay_at decay_rate (int (length df) - 1) i"
    using i yn by (simp add: priced_row_nth price_row_def)
  show "option_bid (compute_option_prices_from_df df k decay_rate ! i)
              = fst (df ! i) * (1 - k)
                  * decay_multiplier (compute_option_prices_from_df df k decay_rate ! i)"
    using i yn by (simp add: priced_row_nth price_row_def)
  show "option_ask (compute_option_prices_from_df df k decay_rate ! i)
              = (1 - snd (df ! i)) * (1 - k)
                  * decay_multiplier (compute_option_prices_from_df df k decay_rate ! i)"
    using i yn by (simp add: priced_row_nth price_row_def)
next
  assume l: "length df = 1"
  then obtain y n where "df ! 0 = (y, n)" by (cases "df ! 0")
  with l show "decay_multiplier (compute_option_prices_from_df df k decay_rate ! 0) = 1"
    by (simp add: priced_row_nth price_row_def decay_at_def)
next
  assume a: "i < length df \<and> length df \<noteq> 1"
  then have T: "int (length df) - 1 \<noteq> 0" by simp
  obtain y n where yn: "df ! i = (y, n)" by (cases "df ! i")
  show "pl_decay_multiplier (compute_option_prices_from_df_price_logic df k decay_rate ! i)
              = Some (decay_multiplier (compute_option_prices_from_df df k decay_rate ! i))"
    using a T yn
    by (simp add: priced_row_nth price_row_def price_logic_row_nth price_logic_row_def
        decay_at_price_logic_def decay_at_def)
  show "pl_option_bid (compute_option_prices_from_df_price_logic df k decay_rate ! i)
              = Some (option_bid (compute_option_prices_from_df df k decay_rate ! i))"
    using a T yn
    by (simp add: priced_row_nth price_row_def price_logic_row_nth price_logic_row_def
        decay_at_price_logic_def decay_at_def)
  show "pl_option_ask (compute_option_prices_from_df_price_logic df k decay_rate ! i)
              = Some (option_ask (compute_option_prices_from_df df k decay_rate ! i))"
    using a T yn
    by (simp add: priced_row_nth price_row_def price_logic_row_nth price_logic_row_def
        decay_at_price_logic_def decay_at_def)
next
  assume l: "length df = 1"
  then obtain y n where yn: "df ! 0 = (y, n)" by (cases "df ! 0")
  show "pl_decay_multiplier (compute_option_prices_from_df_price_logic df k decay_rate ! 0)
              = None"
    using l yn by (simp add: price_logic_row_nth price_logic_row_def decay_at_price_logic_def)
  show "pl_option_bid (compute_option_prices_from_df_price_logic df k decay_rate ! 0) = None"
    using l yn by (simp add: price_logic_row_nth price_logic_row_def decay_at_price_logic_def)
  show "pl_option_ask (compute_option_prices_from_df_price_logic df k decay_rate ! 0) = None"
    using l yn by (simp add: price_logic_row_nth price_logic_row_def decay_at_price_logic_def)
qed

theorem decay_multiplier_behaviour_witness:
  "decay_at (3 / 2) 1 1 \<le> decay_at (3 / 2) 1 0
   \<and> decay_at (3 / 2) 1 0 = 1
   \<and> decay_at (3 / 2) 0 7 = 1
   \<and> option_bid (compute_option_prices_from_df [(6 / 10, 4 / 10), (7 / 10, 3 / 10)] (1 / 2) (3 / 2) ! 1)
       = 7 / 10 * (1 - 1 / 2) * decay_at (3 / 2) 1 1
   \<and> option_ask (compute_option_prices_from_df [(6 / 10, 4 / 10), (7 / 10, 3 / 10)] (1 / 2) (3 / 2) ! 1)
       = (1 - 3 / 10) * (1 - 1 / 2) * decay_at (3 / 2) 1 1
   \<and> pl_decay_multiplier
        (compute_option_prices_from_df_price_logic [(6 / 10, 4 / 10), (7 / 10, 3 / 10)] (1 / 2) (3 / 2) ! 1)
       = Some (decay_at (3 / 2) 1 1)
   \<and> pl_option_bid
        (compute_option_prices_from_df_price_logic [(6 / 10, 4 / 10), (7 / 10, 3 / 10)] (1 / 2) (3 / 2) ! 1)
       = Some (7 / 10 * (1 - 1 / 2) * decay_at (3 / 2) 1 1)
   \<and> decay_multiplier (compute_option_prices_from_df [(6 / 10, 4 / 10)] (1 / 2) (3 / 2) ! 0) = 1
   \<and> pl_decay_multiplier
        (compute_option_prices_from_df_price_logic [(6 / 10, 4 / 10)] (1 / 2) (3 / 2) ! 0) = None
   \<and> pl_option_bid
        (compute_option_prices_from_df_price_logic [(6 / 10, 4 / 10)] (1 / 2) (3 / 2) ! 0) = None
   \<and> pl_option_ask
        (compute_option_prices_from_df_price_logic [(6 / 10, 4 / 10)] (1 / 2) (3 / 2) ! 0) = None"
  using decay_multiplier_behaviour [of "3 / 2" 1 1 0 1 1 7 1
          "[(6 / 10, 4 / 10), (7 / 10, 3 / 10)]" "1 / 2"]
        decay_multiplier_behaviour [of "3 / 2" 1 1 0 1 1 7 0 "[(6 / 10, 4 / 10)]" "1 / 2"]
  by simp

text \<open>The standalone function of \<open>pricing/price-logic.py\<close> computes the same
  multiplier whenever the frame has more than one row, and NaN on a single row.\<close>

lemma decay_at_price_logic_agrees:
  "decay_at_price_logic d T t = (if T = 0 then None else Some (decay_at d T t))"
  by (simp add: decay_at_price_logic_def decay_at_def)

section \<open>Properties of the ledger\<close>

subsection \<open>Quotes and the structure of a trade\<close>

lemma quote_for_strike_eq: "quote_for_strike y n k = Inr (quote_of y n k)"
  by (simp add: quote_for_strike_def compute_option_prices_from_df_def price_row_def
      decay_at_def quote_of_def)

lemma quotes_for_strikes_eq: "quotes_for_strikes y n ks = Inr (map (quote_of y n) ks)"
  by (induction ks) (simp_all add: quote_for_strike_eq)

lemma update_market_data_eq:
  "update_market_data pm df =
     (if df = [] then (Some IndexError, pm\<lparr>current_market_data := Some df\<rparr>)
      else (None, pm\<lparr>current_market_data := Some df,
              current_option_prices :=
                Some (map (quote_of (last df / 100) (1 - last df / 100)) strikes)\<rparr>))"
  by (simp add: update_market_data_def quotes_for_strikes_eq Let_def)

lemma validate_trade_Inr:
  assumes "validate_trade pm uid k q tt = Inr (u, ps, price, cost, mp)"
  shows "map_of (users pm) uid = Some u" and "map_of (positions pm) uid = Some ps"
    and "\<not> market_resolved pm" and "0 < q" and "0 < price" and "cost = of_int q * price"
    and "tt = BUY \<Longrightarrow> cost \<le> current_cash u"
    and "tt = BUY \<Longrightarrow> get_option_price pm k Ask = Inr price"
    and "tt = SELL \<Longrightarrow> get_option_price pm k Bid = Inr price"
    and "tt = SELL \<Longrightarrow>
           q \<le> pos_quantity (case map_of ps k of None \<Rightarrow> Position_init uid k | Some p \<Rightarrow> p)"
  using assms
  by (auto simp: validate_trade_def price_and_cost_def Let_def
      split: option.splits if_splits sum.splits prod.splits TradeType.splits)


lemma validate_trade_unknown_strike:
  assumes "current_option_prices pm = Some qs" and "k \<notin> strike ` set qs"
  shows "\<exists>m. validate_trade pm uid k q tt = Inl (Inr (False, m))"
proof -
  have "filter (\<lambda>x. strike x = k) qs = []"
    using assms(2) by (auto simp: filter_empty_conv)
  then have "\<exists>e. get_option_price pm k Ask = Inl e"
    using assms(1) by (simp add: get_option_price_def split: option.splits)
  then have "map_of (users pm) uid \<noteq> None \<Longrightarrow> \<exists>e. calculate_position_limit pm uid k = Inl e"
    by (auto simp: calculate_position_limit_def)
  then show ?thesis
    by (auto simp: validate_trade_def split: option.splits)
qed

lemma validate_trade_no_quotes:
  assumes "current_option_prices pm = None"
  shows "\<exists>m. validate_trade pm uid k q tt = Inl (Inr (False, m))"
  using assms by (auto simp: validate_trade_def split: option.splits)

lemma execute_trade_rejected:
  "validate_trade pm uid k q tt = Inl r \<Longrightarrow> execute_trade pm env uid k q tt = (r, pm)"
  by (simp add: execute_trade_def)

lemma rollback_after_apply:
  assumes "map_of (users pm) uid = Some u" and "map_of (positions pm) uid = Some ps"
    and "strike_price t = k" and "trade_type t = tt"
  shows "rollback_trade (apply_trade pm uid u ps t cost) uid k tt cost =
           Inr (pm\<lparr>users := AList.update uid u (users pm),
                    positions :=
                      AList.update uid
                        (AList.update k
                           (rollback_position
                              (add_trade (case map_of ps k of None \<Rightarrow> Position_init uid k
                                          | Some p0 \<Rightarrow> p0) t)) ps)
                        (positions pm)\<rparr>)"
  using assms
  by (simp add: rollback_trade_def apply_trade_def Let_def update_conv')

lemma execute_trade_cases:
  assumes "execute_trade pm env uid k q tt = (r, pm')"
  obtains (rejected) "validate_trade pm uid k q tt = Inl r" and "pm' = pm"
  | (committed) u ps price cost mp
    where "validate_trade pm uid k q tt = Inr (u, ps, price, cost, mp)"
      and "\<not> db_raises env" and "r = Inr (True, TradeExecuted)"
      and "pm' = apply_trade pm uid u ps (build_trade env uid k q tt price cost mp) cost"
  | (undone) u ps price cost mp
    where "validate_trade pm uid k q tt = Inr (u, ps, price, cost, mp)"
      and "db_raises env" and "r = Inr (False, DatabaseErrorMsg)"
      and "pm' = rolled_back pm uid u ps (build_trade env uid k q tt price cost mp)"
proof (cases "validate_trade pm uid k q tt")
  case (Inl r0)
  with assms have "r = r0" "pm' = pm" by (simp_all add: execute_trade_def)
  with Inl show ?thesis using rejected by simp
next
  case (Inr v)
  obtain u ps price cost mp where v: "v = (u, ps, price, cost, mp)" by (cases v)
  note val = Inr [unfolded v]
  let ?t = "build_trade env uid k q tt price cost mp"
  have rb: "rollback_trade (apply_trade pm uid u ps ?t cost) uid k tt cost
              = Inr (rolled_back pm uid u ps ?t)"
  proof -
    have sk: "strike_price ?t = k" and ty: "trade_type ?t = tt"
      by (simp_all add: build_trade_def)
    show ?thesis
      using rollback_after_apply [OF validate_trade_Inr(1,2) [OF val] sk ty, of cost]
      unfolding rolled_back_def sk by simp
  qed
  show ?thesis
  proof (cases "db_raises env")
    case True
    with assms val rb have "r = Inr (False, DatabaseErrorMsg)"
      and "pm' = rolled_back pm uid u ps ?t"
      by (simp_all add: execute_trade_def Let_def)
    with val True show ?thesis using undone by blast
  next
    case False
    with assms val have "r = Inr (True, TradeExecuted)"
      and "pm' = apply_trade pm uid u ps ?t cost"
      by (simp_all add: execute_trade_def Let_def)
    with val False show ?thesis using committed by blast
  qed
qed

lemma execute_trade_frame:
  assumes "execute_trade pm env uid k q tt = (r, pm')"
  shows "current_option_prices pm' = current_option_prices pm"
    and "current_market_data pm' = current_market_data pm"
    and "market_resolved pm' = market_resolved pm"
    and "final_market_price pm' = final_market_price pm"
  using assms
  by (cases rule: execute_trade_cases; simp add: apply_trade_def rolled_back_def Let_def)+

lemma resolve_users_frame:
  "resolve_users dbr final uids pm = (e, pm') \<Longrightarrow>
     current_option_prices pm' = current_option_prices pm
     \<and> current_market_data pm' = current_market_data pm"
proof (induction uids arbitrary: pm)
  case Nil
  then show ?case by simp
next
  case (Cons uid uids)
  then show ?case
    by (auto simp: Let_def split: option.splits prod.splits if_splits)
qed

lemma ledger_step_quotes:
  assumes "current_option_prices pm = None \<or> (\<exists>qs. current_option_prices pm = Some qs \<and> map strike qs = strikes)"
  shows "current_option_prices (ledger_step pm c) = None
         \<or> (\<exists>qs. current_option_prices (ledger_step pm c) = Some qs \<and> map strike qs = strikes)"
proof (cases c)
  case (UpdateMarket df)
  then show ?thesis
    using assms by (auto simp: update_market_data_eq quote_of_def comp_def)
next
  case (ExecuteTrade env uid k q tt)
  then show ?thesis
    using assms execute_trade_frame(1) [of pm env uid k q tt]
    by (cases "execute_trade pm env uid k q tt") auto
next
  case (ResolveMarket dbr final)
  obtain e pm' where r: "resolve_market pm dbr final = (e, pm')"
    by (cases "resolve_market pm dbr final")
  then have "current_option_prices pm' = current_option_prices pm"
    using resolve_users_frame by (fastforce simp: resolve_market_def)
  then show ?thesis using assms ResolveMarket r by simp
qed

lemma ledger_run_quotes:
  assumes "current_option_prices pm = None \<or> (\<exists>qs. current_option_prices pm = Some qs \<and> map strike qs = strikes)"
  shows "current_option_prices (ledger_run pm calls) = None
         \<or> (\<exists>qs. current_option_prices (ledger_run pm calls) = Some qs \<and> map strike qs = strikes)"
  using assms unfolding ledger_run_def
proof (induction calls arbitrary: pm)
  case Nil
  then show ?case by simp
next
  case (Cons c calls)
  show ?case
    using Cons.IH [OF ledger_step_quotes [OF Cons.prems]] by simp
qed

lemma fresh_market_eq:
  "ledger_run fresh_ledger [UpdateMarket [60]] =
     fresh_ledger\<lparr>current_market_data := Some [60],
       current_option_prices := Some (map (quote_of (6 / 10) (4 / 10)) strikes)\<rparr>"
  by (simp add: ledger_run_def update_market_data_eq)

subsection \<open>Strikes outside the quoted list\<close>

text \<open>
  Claim C9. In every state a ledger reaches from one without quotes, \<open>execute_trade\<close>
  at a strike outside the fixed list \<open>0.3, ..., 0.8\<close> returns \<open>(False, reason)\<close> and
  leaves the whole state (cash and positions included) as it was, whatever the user,
  the quantity and the side.
\<close>

theorem unknown_strike_rejected:
  assumes "current_option_prices pm0 = None" and "k \<notin> set strikes"
  shows "\<exists>m. execute_trade (ledger_run pm0 calls) env uid k q tt
               = (Inr (False, m), ledger_run pm0 calls)"
proof -
  let ?pm = "ledger_run pm0 calls"
  from ledger_run_quotes [of pm0 calls] assms(1)
  consider "current_option_prices ?pm = None"
    | qs where "current_option_prices ?pm = Some qs" "map strike qs = strikes"
    by auto
  then have "\<exists>m. validate_trade ?pm uid k q tt = Inl (Inr (False, m))"
  proof cases
    case 1
    then show ?thesis by (rule validate_trade_no_quotes)
  next
    case 2
    have "strike ` set qs = set strikes"
      using 2(2) by (metis list.set_map)
    with assms(2) have "k \<notin> strike ` set qs" by simp
    with 2(1) show ?thesis by (rule validate_trade_unknown_strike)
  qed
  then show ?thesis
    using execute_trade_rejected by blast
qed


theorem unknown_strike_rejected_witness:
  "current_option_prices fresh_ledger = None
   \<and> (45 / 100) \<notin> set strikes
   \<and> (\<exists>m. execute_trade (ledger_run fresh_ledger [UpdateMarket [60]]) db_ok ''u1'' (45 / 100) 1 BUY
            = (Inr (False, m), ledger_run fresh_ledger [UpdateMarket [60]]))
   \<and> validate_trade (ledger_run fresh_ledger [UpdateMarket [60]]) ''u1'' (45 / 100) 1 BUY
       = Inl (Inr (False, PositionLimitError (StrikeNotAvailable (45 / 100))))"
proof -
  have h1: "current_option_prices fresh_ledger = None"
    by (simp add: fresh_ledger_def)
  have h2: "(45 / 100) \<notin> set strikes"
    by (simp add: strikes_def)
  have v: "validate_trade (ledger_run fresh_ledger [UpdateMarket [60]]) ''u1'' (45 / 100) 1 BUY
       = Inl (Inr (False, PositionLimitError (StrikeNotAvailable (45 / 100))))"
    unfolding fresh_market_eq
    by (simp add: fresh_ledger_def validate_trade_def
        calculate_position_limit_def get_option_price_def strikes_def quote_of_def)
  show ?thesis
    using h1 h2 v
      unknown_strike_rejected [OF h1 h2, of "[UpdateMarket [60]]" db_ok "''u1''" 1 BUY]
    by simp
qed

subsection \<open>Holdings follow the trade list\<close>

lemma position_of_apply_trade:
  assumes "map_of (positions pm) uid = Some ps"
  shows "position_of (apply_trade pm uid u ps t cost) uid' k' =
           (if uid' = uid \<and> k' = strike_price t
            then add_trade (position_of pm uid (strike_price t)) t
            else position_of pm uid' k')"
  using assms
  by (auto simp: position_of_def apply_trade_def Let_def update_conv' split: option.splits)

lemma position_of_rolled_back:
  assumes "map_of (positions pm) uid = Some ps"
  shows "position_of (rolled_back pm uid u ps t) uid' k' =
           (if uid' = uid \<and> k' = strike_price t
            then rollback_position (add_trade (position_of pm uid (strike_price t)) t)
            else position_of pm uid' k')"
  using assms
  by (auto simp: position_of_def rolled_back_def Let_def update_conv' split: option.splits)

lemma rollback_add_trade:
  "rollback_position (add_trade p t) =
     p\<lparr>pos_quantity := sum_signed_quantity (trades p),
        total_cost_basis := sum_total_cost (trades p)\<rparr>"
  by (simp add: rollback_position_def add_trade_def)

lemma sum_signed_quantity_snoc:
  "sum_signed_quantity (ts @ [t]) = sum_signed_quantity ts + signed_quantity t"
  by (simp add: sum_signed_quantity_def)

lemma add_trade_quantity:
  "pos_quantity (add_trade p t) = pos_quantity p + signed_quantity t"
  and add_trade_trades: "trades (add_trade p t) = trades p @ [t]"
  by (simp_all add: add_trade_def signed_quantity_def)

lemma settle_position_keeps:
  "pos_quantity (snd (settle_position p final k)) = pos_quantity p"
  "trades (snd (settle_position p final k)) = trades p"
  "total_cost_basis (snd (settle_position p final k)) = total_cost_basis p"
  by (simp_all add: settle_position_def Let_def)

lemma settle_positions_lookup:
  "map_of (snd (settle_positions final c ps)) k =
     map_option (\<lambda>p. if pos_quantity p \<noteq> 0 then snd (settle_position p final k) else p)
       (map_of ps k)"
  by (induction ps arbitrary: c) (auto simp: split_def)

lemma settle_positions_keeps:
  assumes "map_of (snd (settle_positions final c ps)) k = Some p'"
  obtains p where "map_of ps k = Some p" and "pos_quantity p' = pos_quantity p"
    and "trades p' = trades p" and "total_cost_basis p' = total_cost_basis p"
  using assms unfolding settle_positions_lookup
  by (auto simp: settle_position_keeps split: if_splits)

lemma position_of_settled:
  assumes "map_of (positions pm) uid = Some ps"
  shows "pos_quantity (position_of
            (pm\<lparr>users := us, positions := AList.update uid (snd (settle_positions final c ps)) (positions pm)\<rparr>)
            uid' k') = pos_quantity (position_of pm uid' k')
       \<and> trades (position_of
            (pm\<lparr>users := us, positions := AList.update uid (snd (settle_positions final c ps)) (positions pm)\<rparr>)
            uid' k') = trades (position_of pm uid' k')"
  using assms
  by (auto simp: position_of_def update_conv' settle_positions_lookup settle_position_keeps
      split: option.splits)

lemma resolve_users_holdings:
  "pos_quantity (position_of (snd (resolve_users dbr final uids pm)) uid' k')
     = pos_quantity (position_of pm uid' k')
   \<and> trades (position_of (snd (resolve_users dbr final uids pm)) uid' k')
     = trades (position_of pm uid' k')"
proof (induction uids arbitrary: pm)
  case Nil
  then show ?case by simp
next
  case (Cons uid uids)
  show ?case
  proof (cases "map_of (positions pm) uid")
    case None
    then show ?thesis by simp
  next
    case (Some ps)
    show ?thesis
    proof (cases "map_of (users pm) uid")
      case None
      with Some show ?thesis by simp
    next
      case (Some u)
      obtain c' ps' where sp: "settle_positions final (current_cash u) ps = (c', ps')"
        by (cases "settle_positions final (current_cash u) ps")
      then have ps': "ps' = snd (settle_positions final (current_cash u) ps)" by simp
      let ?pm' = "pm\<lparr>users := AList.update uid (u\<lparr>current_cash := c', total_realized_pnl := c' - starting_cash u\<rparr>) (users pm),
                       positions := AList.update uid ps' (positions pm)\<rparr>"
      have step: "pos_quantity (position_of ?pm' uid' k') = pos_quantity (position_of pm uid' k')
                  \<and> trades (position_of ?pm' uid' k') = trades (position_of pm uid' k')"
        unfolding ps' using position_of_settled [OF \<open>map_of (positions pm) uid = Some ps\<close>] by simp
      show ?thesis
        using \<open>map_of (positions pm) uid = Some ps\<close> Some sp step Cons.IH [of ?pm']
        by (simp add: Let_def)
    qed
  qed
qed

lemma position_of_frame:
  "positions pm' = positions pm \<Longrightarrow> position_of pm' = position_of pm"
  by (auto simp: position_of_def fun_eq_iff)

lemma holdings_consistent_cong:
  "position_of pm' = position_of pm \<Longrightarrow> holdings_consistent pm' = holdings_consistent pm"
  by (simp add: holdings_consistent_def)

lemma holdings_consistentD:
  assumes "holdings_consistent pm"
  shows "pos_quantity (position_of pm uid k) = sum_signed_quantity (trades (position_of pm uid k))"
    and "0 \<le> pos_quantity (position_of pm uid k)"
  using assms unfolding holdings_consistent_def by blast+

lemma holdings_apply_trade:
  assumes h: "holdings_consistent pm" and ps: "map_of (positions pm) uid = Some ps"
    and ge: "0 \<le> pos_quantity (position_of pm uid (strike_price t)) + signed_quantity t"
  shows "holdings_consistent (apply_trade pm uid u ps t cost)"
  unfolding holdings_consistent_def
proof (intro allI)
  fix uid' k'
  let ?p = "position_of (apply_trade pm uid u ps t cost) uid' k'"
  show "pos_quantity ?p = sum_signed_quantity (trades ?p) \<and> 0 \<le> pos_quantity ?p"
  proof (cases "uid' = uid \<and> k' = strike_price t")
    case True
    then have "?p = add_trade (position_of pm uid (strike_price t)) t"
      by (simp add: position_of_apply_trade [OF ps])
    then show ?thesis
      using ge holdings_consistentD(1) [OF h, of uid "strike_price t"]
      by (simp add: add_trade_quantity add_trade_trades sum_signed_quantity_snoc)
  next
    case False
    then have "?p = position_of pm uid' k'"
      by (auto simp: position_of_apply_trade [OF ps])
    then show ?thesis
      using holdings_consistentD [OF h, of uid' k'] by simp
  qed
qed

lemma holdings_rolled_back:
  assumes h: "holdings_consistent pm" and ps: "map_of (positions pm) uid = Some ps"
  shows "holdings_consistent (rolled_back pm uid u ps t)"
  unfolding holdings_consistent_def
proof (intro allI)
  fix uid' k'
  let ?p = "position_of (rolled_back pm uid u ps t) uid' k'"
  show "pos_quantity ?p = sum_signed_quantity (trades ?p) \<and> 0 \<le> pos_quantity ?p"
  proof (cases "uid' = uid \<and> k' = strike_price t")
    case True
    then have "?p = rollback_position (add_trade (position_of pm uid (strike_price t)) t)"
      by (simp add: position_of_rolled_back [OF ps])
    then show ?thesis
      using holdings_consistentD [OF h, of uid "strike_price t"]
      by (simp add: rollback_add_trade)
  next
    case False
    then have "?p = position_of pm uid' k'"
      by (auto simp: position_of_rolled_back [OF ps])
    then show ?thesis
      using holdings_consistentD [OF h, of uid' k'] by simp
  qed
qed

lemma holdings_execute_trade:
  assumes h: "holdings_consistent pm" and ex: "execute_trade pm env uid k q tt = (r, pm')"
  shows "holdings_consistent pm'"
  using ex
proof (cases rule: execute_trade_cases)
  case rejected
  with h show ?thesis by simp
next
  case (committed u ps price cost mp)
  let ?t = "build_trade env uid k q tt price cost mp"
  note v = validate_trade_Inr [OF committed(1)]
  have cur: "position_of pm uid k
               = (case map_of ps k of None \<Rightarrow> Position_init uid k | Some p \<Rightarrow> p)"
    using v(2) by (simp add: position_of_def)
  have sk: "strike_price ?t = k" by (simp add: build_trade_def)
  have sq: "signed_quantity ?t = (if tt = BUY then q else - q)"
    by (simp add: build_trade_def signed_quantity_def)
  have "0 \<le> pos_quantity (position_of pm uid k) + signed_quantity ?t"
  proof (cases tt)
    case BUY
    then show ?thesis using holdings_consistentD(2) [OF h, of uid k] v(4) sq by simp
  next
    case SELL
    then show ?thesis using v(10) cur sq by simp
  qed
  then have "0 \<le> pos_quantity (position_of pm uid (strike_price ?t)) + signed_quantity ?t"
    unfolding sk .
  then show ?thesis
    unfolding committed(4) using h v(2) by (rule holdings_apply_trade [rotated 2])
next
  case (undone u ps price cost mp)
  note v = validate_trade_Inr [OF undone(1)]
  show ?thesis
    unfolding undone(4) using h v(2) by (rule holdings_rolled_back)
qed

lemma holdings_resolve_market:
  assumes h: "holdings_consistent pm"
  shows "holdings_consistent (snd (resolve_market pm dbr final))"
proof -
  let ?pm0 = "pm\<lparr>market_resolved := True, final_market_price := Some final\<rparr>"
  have "position_of ?pm0 = position_of pm"
    by (rule position_of_frame) simp
  then have "holdings_consistent ?pm0 = holdings_consistent pm"
    by (rule holdings_consistent_cong)
  with h have h0: "holdings_consistent ?pm0" by simp
  show ?thesis
    unfolding resolve_market_def holdings_consistent_def
  proof (intro allI)
    fix uid k
    let ?pm1 = "snd (resolve_users dbr final (map fst (users pm)) ?pm0)"
    have "pos_quantity (position_of ?pm1 uid k) = pos_quantity (position_of ?pm0 uid k)"
      and "trades (position_of ?pm1 uid k) = trades (position_of ?pm0 uid k)"
      using resolve_users_holdings [of dbr final "map fst (users pm)" ?pm0 uid k] by blast+
    then show "pos_quantity (position_of ?pm1 uid k)
                 = sum_signed_quantity (trades (position_of ?pm1 uid k))
               \<and> 0 \<le> pos_quantity (position_of ?pm1 uid k)"
      using holdings_consistentD [OF h0, of uid k] by simp
  qed
qed

lemma holdings_step:
  assumes "holdings_consistent pm"
  shows "holdings_consistent (ledger_step pm c)"
proof (cases c)
  case (UpdateMarket df)
  have "positions (snd (update_market_data pm df)) = positions pm"
    by (simp add: update_market_data_eq)
  then have "position_of (snd (update_market_data pm df)) = position_of pm"
    by (rule position_of_frame)
  then have "holdings_consistent (snd (update_market_data pm df)) = holdings_consistent pm"
    by (rule holdings_consistent_cong)
  with assms UpdateMarket show ?thesis by simp
next
  case (ExecuteTrade env uid k q tt)
  obtain r pm' where ex: "execute_trade pm env uid k q tt = (r, pm')"
    by (cases "execute_trade pm env uid k q tt")
  with assms have "holdings_consistent pm'" by (rule holdings_execute_trade)
  with ex ExecuteTrade show ?thesis by simp
next
  case (ResolveMarket dbr final)
  then show ?thesis using holdings_resolve_market [OF assms] by simp
qed

lemma holdings_run:
  "holdings_consistent pm \<Longrightarrow> holdings_consistent (ledger_run pm calls)"
  unfolding ledger_run_def
proof (induction calls arbitrary: pm)
  case Nil
  then show ?case by simp
next
  case (Cons c calls)
  from Cons.prems have "holdings_consistent (ledger_step pm c)" by (rule holdings_step)
  then have "holdings_consistent (foldl ledger_step (ledger_step pm c) calls)" by (rule Cons.IH)
  then show ?case by simp
qed

subsection \<open>The demo run, evaluated\<close>

lemma validate_trade_Inl_False:
  "validate_trade pm uid k q tt = Inl (Inr (b, m)) \<Longrightarrow> \<not> b"
  by (auto simp: validate_trade_def Let_def
      split: option.splits if_splits sum.splits prod.splits)

lemmas ledger_eval =
  ledger_run_def update_market_data_eq strikes_def quote_of_def execute_trade_def
  validate_trade_def build_trade_def calculate_position_limit_def get_option_price_def
  quote_side_def py_int_def price_and_cost_def apply_trade_def add_trade_def
  Position_init_def Let_def rollback_trade_def rollback_position_def
  sum_signed_quantity_def sum_total_cost_def signed_quantity_def
  fresh_ledger_def alice_def db_ok_def db_down_def

lemma bought_ledger_eq:
  "bought_ledger =
     \<lparr>users = [(''u1'', alice\<lparr>current_cash := 14997\<rparr>)],
      positions = [(''u1'', [(1 / 2,
         \<lparr>pos_user_id = ''u1'', pos_strike_price = 1 / 2, pos_quantity = 10,
          total_cost_basis = 3, trades = [buy_10], status = OPEN, settlement_value = 0\<rparr>)])],
      current_market_data = Some [60], current_option_prices = Some demo_quotes,
      market_resolved = False, final_market_price = None\<rparr>"
  by (simp add: bought_ledger_def demo_quotes_def buy_10_def ledger_eval)

lemma demo_ledger_eq:
  "demo_ledger =
     \<lparr>users = [(''u1'', alice\<lparr>current_cash := 149979 / 10\<rparr>)],
      positions = [(''u1'', [(1 / 2,
         \<lparr>pos_user_id = ''u1'', pos_strike_price = 1 / 2, pos_quantity = 7,
          total_cost_basis = 39 / 10, trades = [buy_10, sell_3], status = OPEN,
          settlement_value = 0\<rparr>)])],
      current_market_data = Some [60], current_option_prices = Some demo_quotes,
      market_resolved = False, final_market_price = None\<rparr>"
  by (simp add: demo_ledger_def demo_quotes_def buy_10_def sell_3_def ledger_eval)

lemma demo_ledger_step:
  "execute_trade bought_ledger db_ok ''u1'' (1 / 2) 3 SELL = (Inr (True, TradeExecuted), demo_ledger)"
  unfolding bought_ledger_eq demo_ledger_eq
  by (simp add: demo_quotes_def buy_10_def sell_3_def alice_def db_ok_def strikes_def quote_of_def
      execute_trade_def validate_trade_def build_trade_def calculate_position_limit_def
      get_option_price_def quote_side_def py_int_def price_and_cost_def apply_trade_def
      add_trade_def Position_init_def Let_def)

subsection \<open>No naked shorts\<close>

lemma execute_trade_accepted:
  assumes "execute_trade pm env uid k q tt = (Inr (True, m), pm')"
  obtains u ps price cost mp
  where "validate_trade pm uid k q tt = Inr (u, ps, price, cost, mp)"
    and "pm' = apply_trade pm uid u ps (build_trade env uid k q tt price cost mp) cost"
  using assms
proof (cases rule: execute_trade_cases)
  case rejected
  then show ?thesis using validate_trade_Inl_False by blast
next
  case (committed u ps price cost mp)
  then show ?thesis using that by blast
next
  case (undone u ps price cost mp)
  then show ?thesis by simp
qed

lemma sell_step:
  assumes "execute_trade pm env uid k q SELL = (Inr (True, m), pm')"
  shows "q \<le> pos_quantity (position_of pm uid k)"
    and "pos_quantity (position_of pm' uid k) = pos_quantity (position_of pm uid k) - q"
    and "0 \<le> pos_quantity (position_of pm' uid k)"
proof -
  from assms obtain u ps price cost mp
    where v: "validate_trade pm uid k q SELL = Inr (u, ps, price, cost, mp)"
      and pm': "pm' = apply_trade pm uid u ps (build_trade env uid k q SELL price cost mp) cost"
    by (rule execute_trade_accepted)
  let ?t = "build_trade env uid k q SELL price cost mp"
  note f = validate_trade_Inr [OF v]
  have cur: "position_of pm uid k
               = (case map_of ps k of None \<Rightarrow> Position_init uid k | Some p \<Rightarrow> p)"
    using f(2) by (simp add: position_of_def)
  show le: "q \<le> pos_quantity (position_of pm uid k)"
    using f(10) cur by simp
  have sk: "strike_price ?t = k" by (simp add: build_trade_def)
  have sq: "signed_quantity ?t = - q" by (simp add: build_trade_def signed_quantity_def)
  have "position_of pm' uid k = add_trade (position_of pm uid k) ?t"
    unfolding pm' by (simp add: position_of_apply_trade [OF f(2)] sk)
  then show eq: "pos_quantity (position_of pm' uid k) = pos_quantity (position_of pm uid k) - q"
    by (simp add: add_trade_quantity sq)
  show "0 \<le> pos_quantity (position_of pm' uid k)"
    using le eq by simp
qed

text \<open>
  Claim C5. An accepted SELL sells at most the quantity the position holds, so the
  quantity it leaves is not negative; and in every state a ledger reaches from one
  whose positions hold the sums of their trades (an empty ledger among them), by any
  calls, no position has a negative quantity.
\<close>

theorem no_naked_shorts:
  "(execute_trade pm env uid k q SELL = (Inr (True, m), pm') \<longrightarrow>
      q \<le> pos_quantity (position_of pm uid k)
      \<and> pos_quantity (position_of pm' uid k) = pos_quantity (position_of pm uid k) - q
      \<and> 0 \<le> pos_quantity (position_of pm' uid k))
   \<and> (holdings_consistent pm0 \<longrightarrow>
        holdings_consistent (ledger_run pm0 calls)
        \<and> 0 \<le> pos_quantity (position_of (ledger_run pm0 calls) uid' k'))"
  using sell_step [of pm env uid k q m pm'] holdings_run [of pm0 calls]
    holdings_consistentD(2) [of "ledger_run pm0 calls" uid' k']
  by blast

lemma holdings_fresh: "holdings_consistent fresh_ledger"
  by (simp add: holdings_consistent_def position_of_def fresh_ledger_def Position_init_def
      sum_signed_quantity_def)

lemma demo_ledger_run:
  "demo_ledger = ledger_run fresh_ledger
       [UpdateMarket [60], ExecuteTrade db_ok ''u1'' (1 / 2) 10 BUY,
        ExecuteTrade db_ok ''u1'' (1 / 2) 3 SELL]"
  by (simp add: demo_ledger_def)

theorem no_naked_shorts_witness:
  "execute_trade bought_ledger db_ok ''u1'' (1 / 2) 3 SELL = (Inr (True, TradeExecuted), demo_ledger)
   \<and> pos_quantity (position_of bought_ledger ''u1'' (1 / 2)) = 10
   \<and> pos_quantity (position_of demo_ledger ''u1'' (1 / 2)) = 7
   \<and> holdings_consistent fresh_ledger
   \<and> holdings_consistent demo_ledger
   \<and> 0 \<le> pos_quantity (position_of demo_ledger ''u1'' (1 / 2))"
proof -
  have b: "pos_quantity (position_of bought_ledger ''u1'' (1 / 2)) = 10"
    unfolding bought_ledger_eq by (simp add: position_of_def)
  show ?thesis
    using no_naked_shorts [of bought_ledger db_ok "''u1''" "1 / 2" 3 TradeExecuted demo_ledger
        fresh_ledger "[UpdateMarket [60], ExecuteTrade db_ok ''u1'' (1 / 2) 10 BUY,
        ExecuteTrade db_ok ''u1'' (1 / 2) 3 SELL]" "''u1''" "1 / 2"]
      demo_ledger_step holdings_fresh b
    unfolding demo_ledger_run [symmetric]
    by simp
qed

subsection \<open>Cash never goes negative\<close>

lemma users_apply_trade:
  "map_of (users (apply_trade pm uid u ps t cost)) =
     (map_of (users pm))(uid \<mapsto>
        (if trade_type t = BUY then u\<lparr>current_cash := current_cash u - cost\<rparr>
         else u\<lparr>current_cash := current_cash u + cost\<rparr>))"
  by (simp add: apply_trade_def Let_def update_conv')

lemma users_rolled_back:
  assumes "map_of (users pm) uid = Some u"
  shows "map_of (users (rolled_back pm uid u ps t)) = map_of (users pm)"
  using assms by (auto simp: rolled_back_def update_conv' fun_eq_iff)

lemma cash_nonneg_execute_trade:
  assumes c: "cash_nonneg pm" and ex: "execute_trade pm env uid k q tt = (r, pm')"
  shows "cash_nonneg pm'"
  using ex
proof (cases rule: execute_trade_cases)
  case rejected
  with c show ?thesis by simp
next
  case (committed u ps price cost mp)
  let ?t = "build_trade env uid k q tt price cost mp"
  note f = validate_trade_Inr [OF committed(1)]
  have ty: "trade_type ?t = tt" by (simp add: build_trade_def)
  have u0: "0 \<le> current_cash u"
    using c f(1) unfolding cash_nonneg_def by blast
  have cost: "0 \<le> cost"
    using f(4,5,6) by simp
  have "0 \<le> current_cash (if tt = BUY then u\<lparr>current_cash := current_cash u - cost\<rparr>
                            else u\<lparr>current_cash := current_cash u + cost\<rparr>)"
    using u0 cost f(7) by simp
  then show ?thesis
    using c unfolding committed(4) cash_nonneg_def users_apply_trade ty
    by (auto split: if_splits)
next
  case (undone u ps price cost mp)
  note f = validate_trade_Inr [OF undone(1)]
  show ?thesis
    using c unfolding undone(4) cash_nonneg_def users_rolled_back [OF f(1)] .
qed

lemma cash_nonneg_step:
  assumes "cash_nonneg pm" and "is_trading_call c"
  shows "cash_nonneg (ledger_step pm c)"
proof (cases c)
  case (UpdateMarket df)
  have "users (snd (update_market_data pm df)) = users pm"
    by (simp add: update_market_data_eq)
  with assms(1) UpdateMarket show ?thesis by (simp add: cash_nonneg_def)
next
  case (ExecuteTrade env uid k q tt)
  obtain r pm' where ex: "execute_trade pm env uid k q tt = (r, pm')"
    by (cases "execute_trade pm env uid k q tt")
  with assms(1) have "cash_nonneg pm'" by (rule cash_nonneg_execute_trade)
  with ex ExecuteTrade show ?thesis by simp
next
  case (ResolveMarket dbr final)
  with assms(2) show ?thesis by simp
qed

lemma cash_nonneg_run:
  assumes "cash_nonneg pm" and "\<forall>c \<in> set calls. is_trading_call c"
  shows "cash_nonneg (ledger_run pm calls)"
  using assms unfolding ledger_run_def
proof (induction calls arbitrary: pm)
  case Nil
  then show ?case by simp
next
  case (Cons c calls)
  from Cons.prems have "cash_nonneg (ledger_step pm c)"
    by (simp add: cash_nonneg_step)
  moreover from Cons.prems have "\<forall>c \<in> set calls. is_trading_call c" by simp
  ultimately have "cash_nonneg (foldl ledger_step (ledger_step pm c) calls)"
    by (rule Cons.IH)
  then show ?case by simp
qed

lemma buy_step:
  assumes "execute_trade pm env uid k q BUY = (Inr (True, m), pm')"
  shows "\<exists>u price. map_of (users pm) uid = Some u
           \<and> get_option_price pm k Ask = Inr price
           \<and> of_int q * price \<le> current_cash u
           \<and> map_of (users pm') uid
               = Some (u\<lparr>current_cash := current_cash u - of_int q * price\<rparr>)"
proof -
  from assms obtain u ps price cost mp
    where v: "validate_trade pm uid k q BUY = Inr (u, ps, price, cost, mp)"
      and pm': "pm' = apply_trade pm uid u ps (build_trade env uid k q BUY price cost mp) cost"
    by (rule execute_trade_accepted)
  note f = validate_trade_Inr [OF v]
  have "map_of (users pm') uid = Some (u\<lparr>current_cash := current_cash u - cost\<rparr>)"
    unfolding pm' users_apply_trade by (simp add: build_trade_def)
  then show ?thesis
    using f(1,6,7,8) by auto
qed

text \<open>
  Claim C4. A BUY is accepted only when the user holds at least
  \<open>price_per_contract * quantity\<close> in cash (the price being the ask), and then cash
  falls by exactly that amount; so over any sequence of trades and price updates,
  rolled-back trades included, cash that starts nonnegative stays nonnegative.
\<close>

theorem buy_never_overdraws:
  "(execute_trade pm env uid k q BUY = (Inr (True, m), pm') \<longrightarrow>
      (\<exists>u price. map_of (users pm) uid = Some u
           \<and> get_option_price pm k Ask = Inr price
           \<and> of_int q * price \<le> current_cash u
           \<and> map_of (users pm') uid
               = Some (u\<lparr>current_cash := current_cash u - of_int q * price\<rparr>)))
   \<and> (cash_nonneg pm0 \<and> (\<forall>c \<in> set calls. is_trading_call c) \<longrightarrow>
        cash_nonneg (ledger_run pm0 calls))"
  using buy_step [of pm env uid k q m pm'] cash_nonneg_run [of pm0 calls]
  by blast

lemma cash_nonneg_fresh: "cash_nonneg fresh_ledger"
  by (simp add: cash_nonneg_def fresh_ledger_def alice_def)

lemma bought_ledger_step:
  "execute_trade (ledger_run fresh_ledger [UpdateMarket [60]]) db_ok ''u1'' (1 / 2) 10 BUY
     = (Inr (True, TradeExecuted), bought_ledger)"
  unfolding fresh_market_eq bought_ledger_eq
  by (simp add: fresh_ledger_def buy_10_def alice_def db_ok_def strikes_def quote_of_def
      demo_quotes_def execute_trade_def validate_trade_def build_trade_def
      calculate_position_limit_def get_option_price_def quote_side_def py_int_def
      price_and_cost_def apply_trade_def add_trade_def Position_init_def Let_def)

theorem buy_never_overdraws_witness:
  "execute_trade (ledger_run fresh_ledger [UpdateMarket [60]]) db_ok ''u1'' (1 / 2) 10 BUY
     = (Inr (True, TradeExecuted), bought_ledger)
   \<and> (\<exists>u price. map_of (users (ledger_run fresh_ledger [UpdateMarket [60]])) ''u1'' = Some u
         \<and> get_option_price (ledger_run fresh_ledger [UpdateMarket [60]]) (1 / 2) Ask = Inr price
         \<and> 10 * price \<le> current_cash u
         \<and> map_of (users bought_ledger) ''u1''
             = Some (u\<lparr>current_cash := current_cash u - 10 * price\<rparr>))
   \<and> map_of (users bought_ledger) ''u1'' = Some (alice\<lparr>current_cash := 14997\<rparr>)
   \<and> cash_nonneg fresh_ledger
   \<and> cash_nonneg demo_ledger"
proof -
  have u: "map_of (users bought_ledger) ''u1'' = Some (alice\<lparr>current_cash := 14997\<rparr>)"
    unfolding bought_ledger_eq by simp
  have t: "\<forall>c \<in> set [UpdateMarket [60], ExecuteTrade db_ok ''u1'' (1 / 2) 10 BUY,
        ExecuteTrade db_ok ''u1'' (1 / 2) 3 SELL]. is_trading_call c"
    by simp
  show ?thesis
    using buy_never_overdraws [of "ledger_run fresh_ledger [UpdateMarket [60]]" db_ok "''u1''"
        "1 / 2" 10 TradeExecuted bought_ledger fresh_ledger
        "[UpdateMarket [60], ExecuteTrade db_ok ''u1'' (1 / 2) 10 BUY,
          ExecuteTrade db_ok ''u1'' (1 / 2) 3 SELL]"]
      bought_ledger_step cash_nonneg_fresh u t
    unfolding demo_ledger_run [symmetric]
    by simp
qed

subsection \<open>Cost basis, rollback and repeated resolution on the demo run\<close>

lemma demo_position_of: "position_of demo_ledger ''u1'' (1 / 2) = demo_position"
  unfolding demo_ledger_eq by (simp add: position_of_def demo_position_def)

lemma add_trade_cost_basis:
  "total_cost_basis (add_trade p (build_trade env uid k q tt price cost mp))
     = total_cost_basis p + cost"
  by (simp add: add_trade_def build_trade_def)

lemma sum_total_cost_snoc:
  "sum_total_cost (ts @ [build_trade env uid k q tt price cost mp])
     = sum_total_cost ts + (if tt = BUY then cost else - cost)"
  by (simp add: sum_total_cost_def build_trade_def)

text \<open>
  Claim C2, on the demo run (BUY 10 then SELL 3 at strike 0.5, both at 0.30). The
  quantity is the sum of the signed trade quantities, but the cost basis is not the
  sum of the trades' signed total costs: \<open>add_trade\<close> subtracts the \<open>total_cost\<close> of
  a SELL, which \<open>execute_trade\<close> has already stored negated, so the basis is
  \<open>3 + 0.9 = 3.9\<close> where the trades sum to \<open>3 - 0.9 = 2.1\<close>.
\<close>

theorem cost_basis_not_the_signed_sum:
  "total_cost_basis (position_of demo_ledger ''u1'' (1 / 2)) = 39 / 10
   \<and> sum_total_cost (trades (position_of demo_ledger ''u1'' (1 / 2))) = 21 / 10
   \<and> pos_quantity (position_of demo_ledger ''u1'' (1 / 2))
       = sum_signed_quantity (trades (position_of demo_ledger ''u1'' (1 / 2)))"
  unfolding demo_position_of
  by (simp add: demo_position_def sum_total_cost_def sum_signed_quantity_def
      signed_quantity_def buy_10_def sell_3_def)

lemma rollback_demo:
  "execute_trade demo_ledger db_down ''u1'' (1 / 2) 1 BUY =
     (Inr (False, DatabaseErrorMsg),
      demo_ledger\<lparr>positions :=
        [(''u1'', [(1 / 2, demo_position\<lparr>total_cost_basis := 21 / 10\<rparr>)])]\<rparr>)"
  unfolding demo_ledger_eq
  by (simp add: demo_position_def demo_quotes_def buy_10_def sell_3_def alice_def db_down_def
      strikes_def quote_of_def execute_trade_def validate_trade_def build_trade_def
      calculate_position_limit_def get_option_price_def quote_side_def py_int_def
      price_and_cost_def apply_trade_def add_trade_def Position_init_def Let_def
      rollback_trade_def rollback_position_def sum_signed_quantity_def sum_total_cost_def
      signed_quantity_def)

text \<open>
  Claim C3, on the demo run followed by a BUY of 1 whose database write raises. The
  call returns \<open>(False, database error)\<close> and cash, the trade list and the quantity
  are those before the call, but the cost basis is recomputed as the sum of the stored
  \<open>total_cost\<close> fields: 2.1, where it was 3.9 before.
\<close>

theorem rollback_changes_cost_basis:
  "fst (execute_trade demo_ledger db_down ''u1'' (1 / 2) 1 BUY) = Inr (False, DatabaseErrorMsg)
   \<and> total_cost_basis (position_of demo_ledger ''u1'' (1 / 2)) = 39 / 10
   \<and> total_cost_basis
        (position_of (snd (execute_trade demo_ledger db_down ''u1'' (1 / 2) 1 BUY)) ''u1'' (1 / 2))
       = 21 / 10
   \<and> users (snd (execute_trade demo_ledger db_down ''u1'' (1 / 2) 1 BUY)) = users demo_ledger
   \<and> trades
        (position_of (snd (execute_trade demo_ledger db_down ''u1'' (1 / 2) 1 BUY)) ''u1'' (1 / 2))
       = trades (position_of demo_ledger ''u1'' (1 / 2))
   \<and> pos_quantity
        (position_of (snd (execute_trade demo_ledger db_down ''u1'' (1 / 2) 1 BUY)) ''u1'' (1 / 2))
       = pos_quantity (position_of demo_ledger ''u1'' (1 / 2))"
  unfolding rollback_demo demo_position_of
  by (simp add: position_of_def demo_position_def)

lemma settle_position_idempotent:
  "settle_position (snd (settle_position p final k)) final' k'
     = (fst (settle_position p final k), snd (settle_position p final k))"
  by (simp add: settle_position_def Let_def)

lemma resolve_once:
  "resolve_market demo_ledger never_raises 65 =
     (None,
      demo_ledger\<lparr>users := [(''u1'', alice\<lparr>current_cash := 1499895 / 100,
                                           total_realized_pnl := - (105 / 100)\<rparr>)],
        positions := [(''u1'', [(1 / 2, settled_position)])],
        market_resolved := True, final_market_price := Some 65\<rparr>)"
  unfolding demo_ledger_eq
  by (simp add: resolve_market_def settle_position_def settled_position_def demo_position_def
      never_raises_def alice_def Let_def)

lemma resolve_twice:
  "resolve_market (snd (resolve_market demo_ledger never_raises 65)) never_raises 65 =
     (None,
      demo_ledger\<lparr>users := [(''u1'', alice\<lparr>current_cash := 15000,
                                           total_realized_pnl := 0\<rparr>)],
        positions := [(''u1'', [(1 / 2, settled_position)])],
        market_resolved := True, final_market_price := Some 65\<rparr>)"
  unfolding resolve_once
  unfolding demo_ledger_eq
  by (simp add: resolve_market_def settle_position_def settled_position_def demo_position_def
      never_raises_def alice_def Let_def)

text \<open>
  Claim C1, on the demo run resolved twice at 65. \<open>settle_position\<close> on the settled
  position returns the stored 1.05 and changes nothing, and the position is the same
  after both calls; but \<open>resolve_market\<close> adds the returned value to cash each time:
  cash is 14998.95 after the first call and 15000 after the second, and the realized
  P&L moves with it.
\<close>

theorem second_resolve_pays_again:
  "map_of (users (snd (resolve_market demo_ledger never_raises 65))) ''u1''
     = Some (alice\<lparr>current_cash := 1499895 / 100, total_realized_pnl := - (105 / 100)\<rparr>)
   \<and> map_of (users (snd (resolve_market (snd (resolve_market demo_ledger never_raises 65))
                          never_raises 65))) ''u1''
     = Some (alice\<lparr>current_cash := 15000, total_realized_pnl := 0\<rparr>)
   \<and> position_of (snd (resolve_market demo_ledger never_raises 65)) ''u1'' (1 / 2)
     = settled_position
   \<and> position_of (snd (resolve_market (snd (resolve_market demo_ledger never_raises 65))
                          never_raises 65)) ''u1'' (1 / 2)
     = settled_position
   \<and> settle_position settled_position 65 (1 / 2) = (105 / 100, settled_position)"
  unfolding resolve_twice
  by (simp add: resolve_once position_of_def settle_position_def settled_position_def)

subsection \<open>Settled positions in the portfolio snapshot\<close>

lemma summarize_positions_Inr:
  assumes "summarize_positions pm ps acc = Inr res"
  shows "fst res = fst acc @ map (\<lambda>(k, p). position_summary k p (mid_of pm k)) (held ps)
       \<and> fst (snd res)
           = fst (snd acc)
             + sum_list (map (\<lambda>(k, p). calculate_unrealized_pnl p (mid_of pm k)) (held ps))
       \<and> snd (snd res)
           = snd (snd acc)
             + sum_list (map (\<lambda>(k, p). of_int (pos_quantity p) * mid_of pm k) (held ps))"
  using assms
proof (induction ps arbitrary: acc)
  case Nil
  then show ?case by (simp add: held_def)
next
  case (Cons kp ps)
  obtain k p where kp: "kp = (k, p)" by (cases kp)
  obtain rows un val where acc: "acc = (rows, un, val)" by (cases acc)
  show ?case
  proof (cases "pos_quantity p \<noteq> 0")
    case False
    then have "summarize_positions pm ps acc = Inr res"
      using Cons.prems kp acc by simp
    from Cons.IH [OF this] False kp show ?thesis by (simp add: held_def)
  next
    case True
    show ?thesis
    proof (cases "get_option_price pm k Mid")
      case (Inl e)
      with True Cons.prems kp acc show ?thesis by simp
    next
      case (Inr x)
      then have m: "mid_of pm k = x" by (simp add: mid_of_def)
      have "summarize_positions pm ps
              (rows @ [position_summary k p x], un + calculate_unrealized_pnl p x,
               val + of_int (pos_quantity p) * x) = Inr res"
        using Cons.prems kp acc True Inr by simp
      from Cons.IH [OF this] True kp acc m show ?thesis
        by (simp add: held_def)
    qed
  qed
qed

lemma settled_unrealized_zero:
  "status p \<noteq> OPEN \<Longrightarrow> calculate_unrealized_pnl p x = 0"
  by (simp add: calculate_unrealized_pnl_def)

lemma sum_list_zero:
  "(\<And>x. x \<in> set xs \<Longrightarrow> f x = (0::real)) \<Longrightarrow> sum_list (map f xs) = 0"
  by (induction xs) simp_all

lemma summarize_positions_prices:
  assumes "summarize_positions pm ps acc = Inr res" and "(k, p) \<in> set (held ps)"
  shows "get_option_price pm k Mid = Inr (mid_of pm k)"
  using assms
proof (induction ps arbitrary: acc)
  case Nil
  then show ?case by (simp add: held_def)
next
  case (Cons kp ps)
  obtain k' p' where kp: "kp = (k', p')" by (cases kp)
  obtain rows un val where acc: "acc = (rows, un, val)" by (cases acc)
  show ?case
  proof (cases "pos_quantity p' \<noteq> 0")
    case False
    then have "summarize_positions pm ps acc = Inr res" and "(k, p) \<in> set (held ps)"
      using Cons.prems kp acc by (simp_all add: held_def)
    then show ?thesis by (rule Cons.IH)
  next
    case True
    show ?thesis
    proof (cases "get_option_price pm k' Mid")
      case (Inl e)
      with True Cons.prems kp acc show ?thesis by simp
    next
      case (Inr x)
      then have m: "get_option_price pm k' Mid = Inr (mid_of pm k')" by (simp add: mid_of_def)
      have rest: "summarize_positions pm ps
              (rows @ [position_summary k' p' x], un + calculate_unrealized_pnl p' x,
               val + of_int (pos_quantity p') * x) = Inr res"
        using Cons.prems kp acc True Inr by simp
      show ?thesis
      proof (cases "(k, p) \<in> set (held ps)")
        case True
        with rest show ?thesis by (rule Cons.IH)
      next
        case False
        with Cons.prems(2) kp have "k = k'" by (auto simp: held_def split: if_splits)
        with m show ?thesis by simp
      qed
    qed
  qed
qed

lemma settle_positions_settled:
  assumes "(k, p') \<in> set (snd (settle_positions final c ps))" and "pos_quantity p' \<noteq> 0"
  shows "status p' \<noteq> OPEN"
  using assms
proof (induction ps arbitrary: c)
  case Nil
  then show ?case by simp
next
  case (Cons kp ps)
  obtain k0 p0 where kp: "kp = (k0, p0)" by (cases kp)
  show ?case
  proof (cases "pos_quantity p0 \<noteq> 0")
    case True
    let ?c = "c + fst (settle_position p0 final k0)"
    from Cons.prems(1) kp True
    have "(k, p') = (k0, snd (settle_position p0 final k0))
          \<or> (k, p') \<in> set (snd (settle_positions final ?c ps))"
      by (auto simp: split_def)
    then show ?thesis
    proof
      assume "(k, p') = (k0, snd (settle_position p0 final k0))"
      then show ?thesis by (auto simp: settle_position_def Let_def)
    next
      assume "(k, p') \<in> set (snd (settle_positions final ?c ps))"
      then show ?thesis using Cons.prems(2) by (rule Cons.IH)
    qed
  next
    case False
    from Cons.prems(1) kp False
    have "(k, p') = (k0, p0) \<or> (k, p') \<in> set (snd (settle_positions final c ps))"
      by (auto simp: split_def)
    then show ?thesis
    proof
      assume "(k, p') = (k0, p0)"
      with False Cons.prems(2) show ?thesis by simp
    next
      assume "(k, p') \<in> set (snd (settle_positions final c ps))"
      then show ?thesis using Cons.prems(2) by (rule Cons.IH)
    qed
  qed
qed

lemma resolve_users_positions_frame:
  assumes "uid \<notin> set uids"
  shows "map_of (positions (snd (resolve_users dbr final uids pm))) uid
           = map_of (positions pm) uid"
  using assms
proof (induction uids arbitrary: pm)
  case Nil
  then show ?case by simp
next
  case (Cons uid0 uids)
  then have ne: "uid0 \<noteq> uid" and rest: "uid \<notin> set uids" by auto
  show ?case
  proof (cases "map_of (positions pm) uid0")
    case None
    then show ?thesis by simp
  next
    case ps: (Some ps)
    show ?thesis
    proof (cases "map_of (users pm) uid0")
      case None
      with ps show ?thesis by simp
    next
      case (Some u)
      obtain c' ps' where sp: "settle_positions final (current_cash u) ps = (c', ps')"
        by (cases "settle_positions final (current_cash u) ps")
      let ?pm' = "pm\<lparr>users := AList.update uid0
                          (u\<lparr>current_cash := c', total_realized_pnl := c' - starting_cash u\<rparr>)
                          (users pm),
                       positions := AList.update uid0 ps' (positions pm)\<rparr>"
      have here: "map_of (positions ?pm') uid = map_of (positions pm) uid"
        using ne by (simp add: update_conv')
      show ?thesis
      proof (cases "dbr uid0")
        case True
        with ps Some sp here show ?thesis by (simp add: Let_def)
      next
        case False
        have "map_of (positions (snd (resolve_users dbr final uids ?pm'))) uid
                = map_of (positions ?pm') uid"
          using rest by (rule Cons.IH)
        with ps Some sp here False show ?thesis by (simp add: Let_def)
      qed
    qed
  qed
qed

lemma resolve_users_user_ids:
  "map fst (users (snd (resolve_users dbr final uids pm))) = map fst (users pm)"
proof (induction uids arbitrary: pm)
  case Nil
  then show ?case by simp
next
  case (Cons uid0 uids)
  show ?case
  proof (cases "map_of (positions pm) uid0")
    case None
    then show ?thesis by simp
  next
    case ps: (Some ps)
    show ?thesis
    proof (cases "map_of (users pm) uid0")
      case None
      with ps show ?thesis by simp
    next
      case (Some u)
      obtain c' ps' where sp: "settle_positions final (current_cash u) ps = (c', ps')"
        by (cases "settle_positions final (current_cash u) ps")
      let ?pm' = "pm\<lparr>users := AList.update uid0
                          (u\<lparr>current_cash := c', total_realized_pnl := c' - starting_cash u\<rparr>)
                          (users pm),
                       positions := AList.update uid0 ps' (positions pm)\<rparr>"
      from Some have "uid0 \<in> fst ` set (users pm)" by (rule map_of_SomeD [THEN imageI [where f = fst], simplified])
      then have here: "map fst (users ?pm') = map fst (users pm)"
        by (simp add: update_keys)
      show ?thesis
      proof (cases "dbr uid0")
        case True
        with ps Some sp here show ?thesis by (simp add: Let_def)
      next
        case False
        have "map fst (users (snd (resolve_users dbr final uids ?pm'))) = map fst (users ?pm')"
          by (rule Cons.IH)
        with ps Some sp here False show ?thesis by (simp add: Let_def)
      qed
    qed
  qed
qed

lemma resolve_users_settled:
  assumes "fst (resolve_users dbr final uids pm) = None" and "uid \<in> set uids"
    and "map_of (positions (snd (resolve_users dbr final uids pm))) uid = Some ps'"
    and "(k, p') \<in> set ps'" and "pos_quantity p' \<noteq> 0"
  shows "status p' \<noteq> OPEN"
  using assms(1,2,3)
proof (induction uids arbitrary: pm)
  case Nil
  then show ?case by simp
next
  case (Cons uid0 uids)
  from Cons.prems(1) obtain ps where ps: "map_of (positions pm) uid0 = Some ps"
    by (cases "map_of (positions pm) uid0") auto
  from Cons.prems(1) ps obtain u where u: "map_of (users pm) uid0 = Some u"
    by (cases "map_of (users pm) uid0") auto
  obtain c' ps0 where sp: "settle_positions final (current_cash u) ps = (c', ps0)"
    by (cases "settle_positions final (current_cash u) ps")
  let ?pm' = "pm\<lparr>users := AList.update uid0
                      (u\<lparr>current_cash := c', total_realized_pnl := c' - starting_cash u\<rparr>)
                      (users pm),
                   positions := AList.update uid0 ps0 (positions pm)\<rparr>"
  from Cons.prems(1) ps u sp have db: "\<not> dbr uid0"
    by (auto simp: Let_def split: if_splits)
  from ps u sp db
  have unfold: "resolve_users dbr final (uid0 # uids) pm = resolve_users dbr final uids ?pm'"
    by (simp add: Let_def)
  show ?case
  proof (cases "uid \<in> set uids")
    case True
    show ?thesis
    proof (rule Cons.IH [of ?pm'])
      show "fst (resolve_users dbr final uids ?pm') = None"
        using Cons.prems(1) unfolding unfold .
      show "uid \<in> set uids" by (rule True)
      show "map_of (positions (snd (resolve_users dbr final uids ?pm'))) uid = Some ps'"
        using Cons.prems(3) unfolding unfold .
    qed
  next
    case False
    with Cons.prems(2) have eq: "uid = uid0" by simp
    have "map_of (positions (snd (resolve_users dbr final uids ?pm'))) uid
            = map_of (positions ?pm') uid"
      using False by (rule resolve_users_positions_frame)
    with Cons.prems(3) eq have "ps' = ps0"
      unfolding unfold by (simp add: update_conv')
    with sp assms(4) have "(k, p') \<in> set (snd (settle_positions final (current_cash u) ps))"
      by simp
    then show ?thesis using assms(5) by (rule settle_positions_settled)
  qed
qed

lemma resolve_market_settled:
  assumes "resolve_market pm0 dbr final = (None, pm)"
    and "map_of (users pm) uid = Some u" and "map_of (positions pm) uid = Some ps"
    and "(k, p) \<in> set ps" and "pos_quantity p \<noteq> 0"
  shows "status p \<noteq> OPEN"
proof -
  let ?pm1 = "pm0\<lparr>market_resolved := True, final_market_price := Some final\<rparr>"
  let ?uids = "map fst (users pm0)"
  have r: "resolve_users dbr final ?uids ?pm1 = (None, pm)"
    using assms(1) by (simp add: resolve_market_def)
  have "map fst (users (snd (resolve_users dbr final ?uids ?pm1))) = map fst (users ?pm1)"
    by (rule resolve_users_user_ids)
  with r have ids: "map fst (users pm) = ?uids" by simp
  from assms(2) have "(uid, u) \<in> set (users pm)" by (rule map_of_SomeD)
  then have "uid \<in> set (map fst (users pm))" by force
  with ids have mem: "uid \<in> set ?uids" by simp
  show ?thesis
  proof (rule resolve_users_settled [of dbr final ?uids ?pm1 uid ps k p])
    show "fst (resolve_users dbr final ?uids ?pm1) = None" using r by simp
    show "uid \<in> set ?uids" by (rule mem)
    show "map_of (positions (snd (resolve_users dbr final ?uids ?pm1))) uid = Some ps"
      using r assms(3) by simp
    show "(k, p) \<in> set ps" by (rule assms(4))
    show "pos_quantity p \<noteq> 0" by (rule assms(5))
  qed
qed

text \<open>
  Claim C10. Take any snapshot \<open>get_user_portfolio\<close> returns. Its rows are the
  user's positions with a nonzero quantity, each priced at the current mid price. A
  row whose position is not OPEN has unrealized P&L 0 (\<open>calculate_unrealized_pnl\<close>
  returns 0 for it) and position value \<open>quantity * mid\<close>;
  \<open>total_position_value\<close> is the sum of \<open>quantity * mid\<close> over all rows, settled
  ones included, and \<open>total_portfolio_value\<close> is cash plus that sum. After a
  \<open>resolve_market\<close> that returned, no shown position is OPEN, so the total
  unrealized P&L is 0.
\<close>

theorem settled_positions_in_snapshot:
  assumes "get_user_portfolio pm uid = Inr (Some pf)"
  shows "\<exists>ps. map_of (positions pm) uid = Some ps
      \<and> pf_positions pf = map (\<lambda>(k, p). position_summary k p (mid_of pm k)) (held ps)
      \<and> total_position_value pf
          = sum_list (map (\<lambda>(k, p). of_int (pos_quantity p) * mid_of pm k) (held ps))
      \<and> total_portfolio_value pf = cash pf + total_position_value pf
      \<and> (\<forall>(k, p) \<in> set (held ps). get_option_price pm k Mid = Inr (mid_of pm k))
      \<and> (\<forall>(k, p) \<in> set (held ps). status p \<noteq> OPEN \<longrightarrow>
            calculate_unrealized_pnl p (mid_of pm k) = 0
            \<and> unrealized_pnl (position_summary k p (mid_of pm k)) = 0
            \<and> position_value (position_summary k p (mid_of pm k))
                = of_int (pos_quantity p) * mid_of pm k)
      \<and> ((\<forall>(k, p) \<in> set (held ps). status p \<noteq> OPEN) \<longrightarrow> total_unrealized_pnl pf = 0)
      \<and> (resolve_market pm0 dbr final = (None, pm) \<longrightarrow>
            (\<forall>(k, p) \<in> set (held ps). status p \<noteq> OPEN))"
proof -
  from assms obtain u where u: "map_of (users pm) uid = Some u"
    by (auto simp: get_user_portfolio_def split: option.splits)
  from assms u obtain ps where ps: "map_of (positions pm) uid = Some ps"
    by (auto simp: get_user_portfolio_def split: option.splits)
  from assms u ps obtain res where res: "summarize_positions pm ps ([], 0, 0) = Inr res"
    by (auto simp: get_user_portfolio_def split: sum.splits)
  obtain rows un val where r: "res = (rows, un, val)" by (cases res)
  from assms u ps res r
  have pf: "pf = \<lparr>user_info = u, cash = current_cash u, total_position_value = val,
                  total_portfolio_value = current_cash u + val, total_unrealized_pnl = un,
                  pf_total_realized_pnl = total_realized_pnl u,
                  total_pnl = un + total_realized_pnl u, pf_positions = rows\<rparr>"
    by (simp add: get_user_portfolio_def)
  from summarize_positions_Inr [OF res] r
  have rows: "rows = map (\<lambda>(k, p). position_summary k p (mid_of pm k)) (held ps)"
    and un: "un = sum_list (map (\<lambda>(k, p). calculate_unrealized_pnl p (mid_of pm k)) (held ps))"
    and val: "val = sum_list (map (\<lambda>(k, p). of_int (pos_quantity p) * mid_of pm k) (held ps))"
    by simp_all
  have prices: "\<forall>(k, p) \<in> set (held ps). get_option_price pm k Mid = Inr (mid_of pm k)"
    using summarize_positions_prices [OF res] by auto
  have each: "\<forall>(k, p) \<in> set (held ps). status p \<noteq> OPEN \<longrightarrow>
            calculate_unrealized_pnl p (mid_of pm k) = 0
            \<and> unrealized_pnl (position_summary k p (mid_of pm k)) = 0
            \<and> position_value (position_summary k p (mid_of pm k))
                = of_int (pos_quantity p) * mid_of pm k"
    by (auto simp: position_summary_def settled_unrealized_zero)
  have tot: "(\<forall>(k, p) \<in> set (held ps). status p \<noteq> OPEN) \<longrightarrow> un = 0"
  proof
    assume a: "\<forall>(k, p) \<in> set (held ps). status p \<noteq> OPEN"
    have "sum_list (map (\<lambda>(k, p). calculate_unrealized_pnl p (mid_of pm k)) (held ps)) = 0"
    proof (rule sum_list_zero)
      fix x assume "x \<in> set (held ps)"
      with a show "(case x of (k, p) \<Rightarrow> calculate_unrealized_pnl p (mid_of pm k)) = 0"
        by (cases x) (auto simp: settled_unrealized_zero)
    qed
    with un show "un = 0" by simp
  qed
  have resolved: "resolve_market pm0 dbr final = (None, pm) \<longrightarrow>
            (\<forall>(k, p) \<in> set (held ps). status p \<noteq> OPEN)"
  proof (intro impI ballI)
    fix x assume rm: "resolve_market pm0 dbr final = (None, pm)" and x: "x \<in> set (held ps)"
    obtain k p where kp: "x = (k, p)" by (cases x)
    from x kp have "(k, p) \<in> set ps" and "pos_quantity p \<noteq> 0" by (simp_all add: held_def)
    with rm u ps have "status p \<noteq> OPEN" by (rule resolve_market_settled)
    with kp show "case x of (k, p) \<Rightarrow> status p \<noteq> OPEN" by simp
  qed
  show ?thesis
    using ps rows val prices each tot resolved unfolding pf by simp
qed

lemma resolved_ledger_eq:
  "resolved_ledger =
     demo_ledger\<lparr>users := [(''u1'', alice\<lparr>current_cash := 1499895 / 100,
                                           total_realized_pnl := - (105 / 100)\<rparr>)],
       positions := [(''u1'', [(1 / 2, settled_position)])],
       market_resolved := True, final_market_price := Some 65\<rparr>"
  by (simp add: resolved_ledger_def resolve_once)

lemma resolved_snapshot_eq:
  "get_user_portfolio resolved_ledger ''u1'' = Inr (Some resolved_snapshot)"
  unfolding resolved_ledger_eq demo_ledger_eq
  by (simp add: get_user_portfolio_def get_option_price_def quote_side_def demo_quotes_def
      strikes_def quote_of_def settled_position_def demo_position_def position_summary_def
      get_average_cost_per_contract_def calculate_unrealized_pnl_def resolved_snapshot_def
      alice_def)

theorem settled_positions_in_snapshot_witness:
  "resolve_market demo_ledger never_raises 65 = (None, resolved_ledger)
   \<and> get_user_portfolio resolved_ledger ''u1'' = Inr (Some resolved_snapshot)
   \<and> map_of (positions resolved_ledger) ''u1'' = Some [(1 / 2, settled_position)]
   \<and> status settled_position = SETTLED
   \<and> pos_quantity settled_position = 7
   \<and> get_option_price resolved_ledger (1 / 2) Mid = Inr (3 / 10)
   \<and> map unrealized_pnl (pf_positions resolved_snapshot) = [0]
   \<and> map position_value (pf_positions resolved_snapshot) = [7 * (3 / 10)]
   \<and> total_unrealized_pnl resolved_snapshot = 0
   \<and> total_position_value resolved_snapshot = 7 * (3 / 10)
   \<and> total_portfolio_value resolved_snapshot = cash resolved_snapshot + 7 * (3 / 10)"
proof -
  have r: "resolve_market demo_ledger never_raises 65 = (None, resolved_ledger)"
    unfolding resolved_ledger_eq by (rule resolve_once)
  have g: "get_option_price resolved_ledger (1 / 2) Mid = Inr (3 / 10)"
    unfolding resolved_ledger_eq demo_ledger_eq
    by (simp add: get_option_price_def quote_side_def demo_quotes_def strikes_def quote_of_def)
  then have m: "mid_of resolved_ledger (1 / 2) = 3 / 10" by (simp add: mid_of_def)
  have p: "map_of (positions resolved_ledger) ''u1'' = Some [(1 / 2, settled_position)]"
    unfolding resolved_ledger_eq by simp
  have s: "status settled_position = SETTLED" "pos_quantity settled_position = 7"
    by (simp_all add: settled_position_def demo_position_def)
  have v: "cash resolved_snapshot = 1499895 / 100"
    by (simp add: resolved_snapshot_def)
  show ?thesis
    using settled_positions_in_snapshot [OF resolved_snapshot_eq, of demo_ledger never_raises 65]
    by (simp add: resolved_snapshot_eq r g m p s v held_def position_summary_def
        calculate_unrealized_pnl_def)
qed

section \<open>Properties of the live simulator\<close>

subsection \<open>Rounding keeps integer bounds\<close>

lemma round_half_even_ge:
  assumes "of_int m \<le> y"
  shows "m \<le> round_half_even y"
proof -
  from assms have "m \<le> \<lfloor>y\<rfloor>" by (simp add: le_floor_iff)
  then show ?thesis by (simp add: round_half_even_def Let_def)
qed

lemma round_half_even_le:
  assumes "y \<le> of_int m"
  shows "round_half_even y \<le> m"
proof (cases "\<lfloor>y\<rfloor> = m")
  case True
  with assms have "y - of_int \<lfloor>y\<rfloor> \<le> 0" by simp
  then have "y - of_int \<lfloor>y\<rfloor> < 1 / 2" by simp
  with True show ?thesis by (simp add: round_half_even_def Let_def)
next
  case False
  from assms have "\<lfloor>y\<rfloor> \<le> m" by (simp add: floor_le_iff)
  with False have "\<lfloor>y\<rfloor> + 1 \<le> m" by simp
  then show ?thesis by (simp add: round_half_even_def Let_def)
qed

lemma py_round_2_ge:
  assumes "of_int a \<le> x"
  shows "of_int a \<le> py_round x 2"
proof -
  have "of_int (a * 100) \<le> x * 10 ^ 2" using assms by simp
  then have "a * 100 \<le> round_half_even (x * 10 ^ 2)" by (rule round_half_even_ge)
  then have "of_int (a * 100) \<le> (of_int (round_half_even (x * 10 ^ 2)) :: real)"
    by (simp only: of_int_le_iff)
  then show ?thesis by (simp add: py_round_def)
qed

lemma py_round_2_le:
  assumes "x \<le> of_int a"
  shows "py_round x 2 \<le> of_int a"
proof -
  have "x * 10 ^ 2 \<le> of_int (a * 100)" using assms by simp
  then have "round_half_even (x * 10 ^ 2) \<le> a * 100" by (rule round_half_even_le)
  then have "(of_int (round_half_even (x * 10 ^ 2)) :: real) \<le> of_int (a * 100)"
    by (simp only: of_int_le_iff)
  then show ?thesis by (simp add: py_round_def)
qed

lemma py_round_2_between:
  assumes "of_int a \<le> x" and "x \<le> of_int b"
  shows "of_int a \<le> py_round x 2 \<and> py_round x 2 \<le> of_int b"
  using assms by (simp add: py_round_2_ge py_round_2_le)

subsection \<open>The hard clamp\<close>

lemma apply_soft_bounds_range:
  "(is_pre \<longrightarrow> 5 \<le> apply_soft_bounds p m is_pre \<and> apply_soft_bounds p m is_pre \<le> 95)
   \<and> (\<not> is_pre \<longrightarrow> 1 \<le> apply_soft_bounds p m is_pre \<and> apply_soft_bounds p m is_pre \<le> 99)"
  by (simp add: apply_soft_bounds_def Let_def)

subsection \<open>One step\<close>

lemma generate_next_done:
  assumes "total_points s \<le> current_point_index s"
  shows "generate_next_data_point s d = (Inr None, s\<lparr>simulation_state := COMPLETED\<rparr>)"
  using assms by (simp add: generate_next_data_point_def)

lemma generate_next_cases:
  obtains
    (complete) "total_points s \<le> current_point_index s"
      and "generate_next_data_point s d = (Inr None, s\<lparr>simulation_state := COMPLETED\<rparr>)"
  | (raised) e where "current_point_index s < total_points s" and "0 < current_point_index s"
      and "generate_next_data_point s d = (Inl e, s)"
  | (emitted) dp cp' m' where "current_point_index s < total_points s"
      and "generate_next_data_point s d =
             (Inr (Some dp),
              s\<lparr>sim_current_price := cp', previous_movement := m',
                data_history := data_history s @ [dp],
                current_data_point := Some dp,
                current_point_index := current_point_index s + 1\<rparr>)"
      and "dp_point_index dp = current_point_index s"
      and "dp_price dp = py_round cp' 2"
      and "current_point_index s \<le> 0 \<longrightarrow> cp' = sim_current_price s"
      and "0 < current_point_index s \<longrightarrow>
             (\<exists>m. cp' = apply_soft_bounds (sim_current_price s) m
                          (current_point_index s < threshold_point s))"
proof (cases "total_points s \<le> current_point_index s")
  case True
  then show ?thesis using complete generate_next_done by blast
next
  case less: False
  show ?thesis
  proof (cases "0 < current_point_index s")
    case False
    let ?dp = "\<lparr>dp_timestamp = 5 * current_point_index s,
                dp_price = py_round (sim_current_price s) 2,
                dp_movement = py_round 0 3,
                dp_volume = py_int (of_int (base_volume d) * (1 + \<bar>0\<bar> * (5 / 10))),
                dp_bid_ask_spread =
                  py_round (max (1 / 10) (5 / 10 + spread_draw d + \<bar>0\<bar> * (1 / 10))) 2,
                dp_market_resolution = final_resolution s,
                dp_point_index = current_point_index s\<rparr>"
    have eq: "generate_next_data_point s d =
            (Inr (Some ?dp),
             s\<lparr>sim_current_price := sim_current_price s,
               previous_movement := previous_movement s,
               data_history := data_history s @ [?dp],
               current_data_point := Some ?dp,
               current_point_index := current_point_index s + 1\<rparr>)"
      using less False by (simp add: generate_next_data_point_def Let_def)
    show ?thesis
    proof (rule emitted [of ?dp "previous_movement s" "sim_current_price s"])
      show "current_point_index s < total_points s" using less by simp
      show "generate_next_data_point s d =
            (Inr (Some ?dp),
             s\<lparr>sim_current_price := sim_current_price s,
               previous_movement := previous_movement s,
               data_history := data_history s @ [?dp],
               current_data_point := Some ?dp,
               current_point_index := current_point_index s + 1\<rparr>)"
        by (rule eq)
      show "dp_point_index ?dp = current_point_index s" by simp
      show "dp_price ?dp = py_round (sim_current_price s) 2" by simp
      show "current_point_index s \<le> 0 \<longrightarrow> sim_current_price s = sim_current_price s" by simp
      show "0 < current_point_index s \<longrightarrow>
             (\<exists>m. sim_current_price s = apply_soft_bounds (sim_current_price s) m
                          (current_point_index s < threshold_point s))"
        using False by simp
    qed
  next
    case True
    show ?thesis
    proof (cases "generate_price_movement s (sim_current_price s) (current_point_index s)
                    (previous_movement s) (normal_draw d)")
      case (Inl e)
      with less True have "generate_next_data_point s d = (Inl e, s)"
        by (simp add: generate_next_data_point_def)
      with less True show ?thesis using raised by simp
    next
      case (Inr m)
      let ?cp = "apply_soft_bounds (sim_current_price s) m
                   (current_point_index s < threshold_point s)"
      let ?dp = "\<lparr>dp_timestamp = 5 * current_point_index s,
                  dp_price = py_round ?cp 2,
                  dp_movement = py_round m 3,
                  dp_volume = py_int (of_int (base_volume d) * (1 + \<bar>m\<bar> * (5 / 10))),
                  dp_bid_ask_spread =
                    py_round (max (1 / 10) (5 / 10 + spread_draw d + \<bar>m\<bar> * (1 / 10))) 2,
                  dp_market_resolution = final_resolution s,
                  dp_point_index = current_point_index s\<rparr>"
      have eq: "generate_next_data_point s d =
              (Inr (Some ?dp),
               s\<lparr>sim_current_price := ?cp, previous_movement := m,
                 data_history := data_history s @ [?dp],
                 current_data_point := Some ?dp,
                 current_point_index := current_point_index s + 1\<rparr>)"
        using less True Inr by (simp add: generate_next_data_point_def Let_def)
      show ?thesis
      proof (rule emitted [of ?dp m ?cp])
        show "current_point_index s < total_points s" using less by simp
        show "generate_next_data_point s d =
              (Inr (Some ?dp),
               s\<lparr>sim_current_price := ?cp, previous_movement := m,
                 data_history := data_history s @ [?dp],
                 current_data_point := Some ?dp,
                 current_point_index := current_point_index s + 1\<rparr>)"
          by (rule eq)
        show "dp_point_index ?dp = current_point_index s" by simp
        show "dp_price ?dp = py_round ?cp 2" by simp
        show "current_point_index s \<le> 0 \<longrightarrow> ?cp = sim_current_price s" using True by simp
        show "0 < current_point_index s \<longrightarrow>
             (\<exists>m'. ?cp = apply_soft_bounds (sim_current_price s) m'
                          (current_point_index s < threshold_point s))"
          by blast
      qed
    qed
  qed
qed

lemma upt_nat_Suc:
  assumes "0 \<le> i"
  shows "map int [0..<nat (i + 1)] = map int [0..<nat i] @ [i]"
proof -
  from assms have "nat (i + 1) = Suc (nat i)" by simp
  with assms show ?thesis by simp
qed

lemma sim_inv_step:
  assumes "sim_inv s"
  shows "sim_inv (snd (generate_next_data_point s d))"
proof (cases rule: generate_next_cases [of s d])
  case complete
  with assms show ?thesis by (simp add: sim_inv_def)
next
  case (raised e)
  with assms show ?thesis by simp
next
  case (emitted dp cp' m')
  from assms have i0: "0 \<le> current_point_index s" by (simp add: sim_inv_def)
  let ?thr = "threshold_point s"
  let ?i = "current_point_index s"
  have cp: "if ?i < ?thr then 5 \<le> cp' \<and> cp' \<le> 95 else 1 \<le> cp' \<and> cp' \<le> 99"
  proof (cases "0 < ?i")
    case True
    with emitted(6) obtain m where "cp' = apply_soft_bounds (sim_current_price s) m (?i < ?thr)"
      by blast
    then show ?thesis using apply_soft_bounds_range [of "?i < ?thr" "sim_current_price s" m]
      by simp
  next
    case False
    with i0 have z: "?i = 0" by simp
    with emitted(5) have "cp' = sim_current_price s" by simp
    with assms z have "15 \<le> cp' \<and> cp' \<le> 85" by (simp add: sim_inv_def)
    then show ?thesis by simp
  qed
  have dp: "price_in_bounds ?thr dp"
  proof (cases "?i < ?thr")
    case True
    with cp have "of_int 5 \<le> cp'" and "cp' \<le> of_int 95" by simp_all
    then have "of_int 5 \<le> py_round cp' 2 \<and> py_round cp' 2 \<le> of_int 95"
      by (rule py_round_2_between)
    with True emitted(3,4) show ?thesis by (simp add: price_in_bounds_def)
  next
    case False
    with cp have "of_int 1 \<le> cp'" and "cp' \<le> of_int 99" by simp_all
    then have "of_int 1 \<le> py_round cp' 2 \<and> py_round cp' 2 \<le> of_int 99"
      by (rule py_round_2_between)
    with False emitted(3,4) show ?thesis by (simp add: price_in_bounds_def)
  qed
  have idx: "map dp_point_index (data_history s @ [dp]) = map int [0..<nat (?i + 1)]"
    using assms emitted(3) i0 by (simp add: sim_inv_def upt_nat_Suc del: upt_Suc)
  have hist: "\<forall>x \<in> set (data_history s @ [dp]). price_in_bounds ?thr x"
    using assms dp by (simp add: sim_inv_def)
  show ?thesis
    unfolding emitted(2) using i0 cp idx hist by (simp add: sim_inv_def del: upt_Suc)
qed

lemma run_steps_Nil: "run_steps s [] = s"
  by (simp add: run_steps_def)

lemma run_steps_Cons: "run_steps s (d # ds) = run_steps (snd (generate_next_data_point s d)) ds"
  by (simp add: run_steps_def)


lemma sim_inv_run:
  assumes "sim_inv s"
  shows "sim_inv (run_steps s ds)"
  using assms by (induction ds arbitrary: s) (simp_all add: run_steps_Nil run_steps_Cons sim_inv_step)

lemma generate_next_frame:
  "total_points (snd (generate_next_data_point s d)) = total_points s"
  "threshold_point (snd (generate_next_data_point s d)) = threshold_point s"
  "volatility (snd (generate_next_data_point s d)) = volatility s"
  "target_price (snd (generate_next_data_point s d)) = target_price s"
  "stop_event (snd (generate_next_data_point s d)) = stop_event s"
  "pause_event (snd (generate_next_data_point s d)) = pause_event s"
  by (cases rule: generate_next_cases [of s d]; simp)+

lemma run_steps_frame:
  "total_points (run_steps s ds) = total_points s"
  "threshold_point (run_steps s ds) = threshold_point s"
  "volatility (run_steps s ds) = volatility s"
  "target_price (run_steps s ds) = target_price s"
  "stop_event (run_steps s ds) = stop_event s"
  "pause_event (run_steps s ds) = pause_event s"
  by (induction ds arbitrary: s; simp add: run_steps_Nil run_steps_Cons generate_next_frame)+

lemma sim_inv_init: "sim_inv (LiveMarketSimulator_init n ip vol thr ts mm choice)"
  by (simp add: sim_inv_def LiveMarketSimulator_init_def)

lemma threshold_500: "threshold_point (LiveMarketSimulator_init 500 ip vol (7 / 10) ts mm choice) = 350"
  by (simp add: LiveMarketSimulator_init_def py_int_def)

subsection \<open>The terminal adjustment keeps the bounds\<close>

lemma terminal_price_range: "2 \<le> terminal_price s \<and> terminal_price s \<le> 98"
  by (simp add: terminal_price_def)

lemma terminal_price_between:
  assumes "lo \<le> sim_current_price s" and "sim_current_price s \<le> hi"
    and "lo \<le> target_price s" and "target_price s \<le> hi" and "lo \<le> 98" and "2 \<le> hi"
  shows "lo \<le> terminal_price s \<and> terminal_price s \<le> hi"
proof -
  let ?c = "sim_current_price s" and ?t = "target_price s"
  have eq: "?c + (?t - ?c) * (4 / 10) = (6 / 10) * ?c + (4 / 10) * ?t" by (simp add: field_simps)
  have "(6 / 10) * lo + (4 / 10) * lo \<le> (6 / 10) * ?c + (4 / 10) * ?t"
    using assms(1,3) by (intro add_mono mult_left_mono) simp_all
  then have lo: "lo \<le> ?c + (?t - ?c) * (4 / 10)" unfolding eq by simp
  have "(6 / 10) * ?c + (4 / 10) * ?t \<le> (6 / 10) * hi + (4 / 10) * hi"
    using assms(2,4) by (intro add_mono mult_left_mono) simp_all
  then have hi: "?c + (?t - ?c) * (4 / 10) \<le> hi" unfolding eq by simp
  from lo hi assms(5,6) show ?thesis
    unfolding terminal_price_def by (auto simp: max_def min_def)
qed

lemma finish_simulation_history:
  assumes "data_history s \<noteq> []"
  shows "data_history (finish_simulation s)
           = butlast (data_history s)
               @ [(last (data_history s))\<lparr>dp_price := py_round (terminal_price s) 2\<rparr>]"
    and "sim_current_price (finish_simulation s) = terminal_price s"
    and "current_data_point (finish_simulation s)
           = map_option (\<lambda>dp. dp\<lparr>dp_price := py_round (terminal_price s) 2\<rparr>)
               (current_data_point s)"
  using assms by (simp_all add: finish_simulation_def Let_def)



lemma finish_simulation_empty:
  "data_history s = [] \<Longrightarrow> data_history (finish_simulation s) = []"
  by (simp add: finish_simulation_def Let_def)

lemma last_index:
  assumes "map dp_point_index h = map int [0..<n]" and "h \<noteq> []"
  shows "dp_point_index (last h) = int n - 1"
proof -
  have n: "n \<noteq> 0"
  proof
    assume "n = 0"
    with assms(1) have "h = []" by simp
    with assms(2) show False by simp
  qed
  have "dp_point_index (last h) = last (map dp_point_index h)"
    using assms(2) by (simp add: last_map)
  also have "\<dots> = last (map int [0..<n])" using assms(1) by simp
  also have "\<dots> = int n - 1" using n by (cases n) (simp_all del: upt_Suc add: last_map)
  finally show ?thesis .
qed

lemma finish_in_bounds:
  assumes "sim_inv s" and "target_price s = 5 \<or> target_price s = 95"
  shows "\<forall>dp \<in> set (data_history (finish_simulation s)). price_in_bounds (threshold_point s) dp"
proof (cases "data_history s = []")
  case True
  then show ?thesis by (simp add: finish_simulation_empty)
next
  case False
  let ?h = "data_history s" and ?thr = "threshold_point s" and ?i = "current_point_index s"
  let ?p = "py_round (terminal_price s) 2"
  from assms(1) have idx: "map dp_point_index ?h = map int [0..<nat ?i]" and i0: "0 \<le> ?i"
    and old: "\<forall>dp \<in> set ?h. price_in_bounds ?thr dp"
    by (simp_all add: sim_inv_def)
  from idx False have pos: "0 < ?i" by (cases "nat ?i") auto
  from last_index [OF idx False] pos have li: "dp_point_index (last ?h) = ?i - 1" by simp
  have new: "price_in_bounds ?thr ((last ?h)\<lparr>dp_price := ?p\<rparr>)"
  proof (cases "?i - 1 < ?thr")
    case True
    with assms(1) pos have "5 \<le> sim_current_price s" "sim_current_price s \<le> 95"
      by (simp_all add: sim_inv_def)
    then have "5 \<le> terminal_price s \<and> terminal_price s \<le> 95"
      using assms(2) by (intro terminal_price_between) auto
    then have "of_int 5 \<le> terminal_price s" "terminal_price s \<le> of_int 95" by simp_all
    then have "of_int 5 \<le> ?p \<and> ?p \<le> of_int 95" by (rule py_round_2_between)
    with True li show ?thesis by (simp add: price_in_bounds_def)
  next
    case False
    have "of_int 1 \<le> terminal_price s" "terminal_price s \<le> of_int 99"
      using terminal_price_range [of s] by simp_all
    then have "of_int 1 \<le> ?p \<and> ?p \<le> of_int 99" by (rule py_round_2_between)
    with False li show ?thesis by (simp add: price_in_bounds_def)
  qed
  have "set (butlast ?h) \<subseteq> set ?h" by (auto dest: in_set_butlastD)
  with old new show ?thesis
    using False by (auto simp: finish_simulation_history(1))
qed

subsection \<open>Steps that emit\<close>




subsection \<open>The loop\<close>





subsection \<open>Price-path bounds\<close>

lemma sim_inv_start: "sim_inv (start_live_simulation s interval a) = sim_inv s"
  by (simp add: start_live_simulation_def sim_inv_def)

lemma start_frame:
  "threshold_point (start_live_simulation s interval a) = threshold_point s"
  "target_price (start_live_simulation s interval a) = target_price s"
  by (simp_all add: start_live_simulation_def)

lemma history_indices:
  assumes "sim_inv s"
  shows "map dp_point_index (data_history s) = map int [0..<length (data_history s)]"
proof -
  from assms have m: "map dp_point_index (data_history s) = map int [0..<nat (current_point_index s)]"
    by (simp add: sim_inv_def)
  then have "length (map dp_point_index (data_history s))
               = length (map int [0..<nat (current_point_index s)])"
    by (rule arg_cong)
  then have "length (data_history s) = nat (current_point_index s)" by simp
  with m show ?thesis by simp
qed

lemma demo_sim_fields:
  "total_points demo_sim = 500" "threshold_point demo_sim = 350" "volatility demo_sim = 18 / 10"
  "trend_strength demo_sim = 8 / 100" "max_movement demo_sim = 4" "final_resolution demo_sim"
  "target_price demo_sim = 95" "current_point_index demo_sim = 0"
  "sim_current_price demo_sim = 50" "previous_movement demo_sim = 0"
  "data_history demo_sim = []" "simulation_state demo_sim = STOPPED"
  "current_data_point demo_sim = None" "\<not> stop_event demo_sim" "\<not> pause_event demo_sim"
  by (simp_all add: demo_sim_def LiveMarketSimulator_init_def py_int_def)

lemma demo_step_0:
  "generate_next_data_point demo_sim still =
     (Inr (Some \<lparr>dp_timestamp = 0, dp_price = 50, dp_movement = 0, dp_volume = 100,
                 dp_bid_ask_spread = 1 / 2, dp_market_resolution = True, dp_point_index = 0\<rparr>),
      demo_sim\<lparr>data_history :=
                 [\<lparr>dp_timestamp = 0, dp_price = 50, dp_movement = 0, dp_volume = 100,
                   dp_bid_ask_spread = 1 / 2, dp_market_resolution = True, dp_point_index = 0\<rparr>],
               current_data_point :=
                 Some \<lparr>dp_timestamp = 0, dp_price = 50, dp_movement = 0, dp_volume = 100,
                       dp_bid_ask_spread = 1 / 2, dp_market_resolution = True, dp_point_index = 0\<rparr>,
               current_point_index := 1\<rparr>)"
  by (simp add: generate_next_data_point_def demo_sim_fields still_def Let_def
      py_round_def round_half_even_def py_int_def)

lemma demo_step_1:
  "generate_next_data_point (snd (generate_next_data_point demo_sim still)) half_sigma =
     (Inr (Some \<lparr>dp_timestamp = 5, dp_price = 509 / 10, dp_movement = 904 / 1000,
                 dp_volume = 145, dp_bid_ask_spread = 59 / 100, dp_market_resolution = True,
                 dp_point_index = 1\<rparr>),
      demo_sim\<lparr>current_point_index := 2,
               sim_current_price := 509045 / 10000,
               previous_movement := 9045 / 10000,
               data_history :=
                 [\<lparr>dp_timestamp = 0, dp_price = 50, dp_movement = 0, dp_volume = 100,
                   dp_bid_ask_spread = 1 / 2, dp_market_resolution = True, dp_point_index = 0\<rparr>,
                  \<lparr>dp_timestamp = 5, dp_price = 509 / 10, dp_movement = 904 / 1000,
                   dp_volume = 145, dp_bid_ask_spread = 59 / 100, dp_market_resolution = True,
                   dp_point_index = 1\<rparr>],
               current_data_point :=
                 Some \<lparr>dp_timestamp = 5, dp_price = 509 / 10, dp_movement = 904 / 1000,
                       dp_volume = 145, dp_bid_ask_spread = 59 / 100,
                       dp_market_resolution = True, dp_point_index = 1\<rparr>\<rparr>)"
  unfolding demo_step_0
  by (simp add: generate_next_data_point_def generate_price_movement_def apply_soft_bounds_def
      demo_sim_fields half_sigma_def Let_def py_round_def round_half_even_def py_int_def)

lemma demo_500:
  "data_history (run_steps demo_sim [still, half_sigma])
   = [\<lparr>dp_timestamp = 0, dp_price = 50, dp_movement = 0, dp_volume = 100,
       dp_bid_ask_spread = 1 / 2, dp_market_resolution = True, dp_point_index = 0\<rparr>,
      \<lparr>dp_timestamp = 5, dp_price = 509 / 10, dp_movement = 904 / 1000, dp_volume = 145,
       dp_bid_ask_spread = 59 / 100, dp_market_resolution = True, dp_point_index = 1\<rparr>]"
  by (simp add: run_steps_def demo_step_1)

text \<open>
  Claim C6. Take the simulator of 500 points with threshold fraction 0.7, started or
  not, after any number of \<open>generate_next_data_point\<close> calls with any draws. Its
  threshold index is 350; the history holds the indices 0, 1, ... in order; every
  emitted price is within [5, 95] where the index is below 350 and within [1, 99]
  from 350 on; so is the price of the point the next call returns; and the bounds
  still hold for the history after the terminal adjustment.
\<close>

theorem price_path_bounds:
  assumes "s0 = LiveMarketSimulator_init 500 ip vol (7 / 10) ts mm choice
           \<or> s0 = start_live_simulation
                    (LiveMarketSimulator_init 500 ip vol (7 / 10) ts mm choice) interval a"
    and "s = run_steps s0 ds"
  shows "threshold_point s = 350
       \<and> map dp_point_index (data_history s) = map int [0..<length (data_history s)]
       \<and> (\<forall>dp \<in> set (data_history s).
             if dp_point_index dp < 350 then 5 \<le> dp_price dp \<and> dp_price dp \<le> 95
             else 1 \<le> dp_price dp \<and> dp_price dp \<le> 99)
       \<and> (fst (generate_next_data_point s d) = Inr (Some dp') \<longrightarrow>
             dp_point_index dp' = current_point_index s
             \<and> (if dp_point_index dp' < 350 then 5 \<le> dp_price dp' \<and> dp_price dp' \<le> 95
                 else 1 \<le> dp_price dp' \<and> dp_price dp' \<le> 99))
       \<and> (\<forall>dp \<in> set (data_history (finish_simulation s)).
             if dp_point_index dp < 350 then 5 \<le> dp_price dp \<and> dp_price dp \<le> 95
             else 1 \<le> dp_price dp \<and> dp_price dp \<le> 99)"
proof -
  let ?I = "LiveMarketSimulator_init 500 ip vol (7 / 10) ts mm choice"
  from assms(1) have inv0: "sim_inv s0"
    by (auto simp: sim_inv_init sim_inv_start)
  from assms(1) have thr0: "threshold_point s0 = 350"
    by (auto simp: threshold_500 start_frame)
  have "target_price ?I = 5 \<or> target_price ?I = 95"
    by (simp add: LiveMarketSimulator_init_def)
  with assms(1) have tgt0: "target_price s0 = 5 \<or> target_price s0 = 95"
    by (auto simp: start_frame)
  have inv: "sim_inv s" unfolding assms(2) using inv0 by (rule sim_inv_run)
  have thr: "threshold_point s = 350" unfolding assms(2) using thr0 by (simp add: run_steps_frame)
  have tgt: "target_price s = 5 \<or> target_price s = 95"
    unfolding assms(2) using tgt0 by (simp add: run_steps_frame)
  have hist: "\<forall>dp \<in> set (data_history s). price_in_bounds 350 dp"
    using inv thr by (simp add: sim_inv_def)
  have next_point: "fst (generate_next_data_point s d) = Inr (Some dp') \<longrightarrow>
             dp_point_index dp' = current_point_index s \<and> price_in_bounds 350 dp'"
  proof
    assume e: "fst (generate_next_data_point s d) = Inr (Some dp')"
    show "dp_point_index dp' = current_point_index s \<and> price_in_bounds 350 dp'"
    proof (cases rule: generate_next_cases [of s d])
      case complete
      with e show ?thesis by simp
    next
      case (raised e')
      with e show ?thesis by simp
    next
      case (emitted dp cp' m')
      with e have dp: "dp' = dp" by simp
      have "sim_inv (snd (generate_next_data_point s d))" using inv by (rule sim_inv_step)
      then have "price_in_bounds (threshold_point s) dp"
        unfolding emitted(2) by (simp add: sim_inv_def)
      with dp thr emitted(3) show ?thesis by simp
    qed
  qed
  have fin: "\<forall>dp \<in> set (data_history (finish_simulation s)). price_in_bounds 350 dp"
    using finish_in_bounds [OF inv tgt] thr by simp
  show ?thesis
    using thr history_indices [OF inv] hist next_point fin
    by (simp add: price_in_bounds_def)
qed

theorem price_path_bounds_witness:
  "map dp_point_index (data_history (run_steps demo_sim [still, half_sigma])) = [0, 1]
   \<and> map dp_price (data_history (run_steps demo_sim [still, half_sigma])) = [50, 509 / 10]
   \<and> threshold_point (run_steps demo_sim [still, half_sigma]) = 350
   \<and> (5::real) \<le> 50 \<and> (50::real) \<le> 95 \<and> (5::real) \<le> 509 / 10 \<and> (509 / 10 :: real) \<le> 95"
  using price_path_bounds [OF disjI1 [OF demo_sim_def] refl, where ds = "[still, half_sigma]"]
  by (simp add: demo_500)

subsection \<open>The terminal adjustment\<close>












end
